theory Spec2Isabelle
  imports Main "HOL-Library.Word" "HOL-Library.AList"
begin

section \<open>The reconnecting client (second program of index.js)\<close>

subsection \<open>JavaScript numbers in the backoff computation\<close>

text \<open>
  \<^verbatim>\<open>getReconnectDelay\<close> computes on IEEE doubles. The only values it meets are
  \<open>1000\<close>, \<open>30000\<close>, the powers \<open>2 ^ n\<close> and the products
  \<open>1000 * 2 ^ n\<close>. Each of these is a double exactly as long as it stays below
  \<open>2 ^ 1024\<close> (its odd part has at most seven bits), and is \<^verbatim>\<open>Infinity\<close> from
  there on. So a number is either a finite integer or \<^verbatim>\<open>Infinity\<close>, and the
  overflow is written out in each operation.
\<close>

datatype jsnum = Fin int | PosInfinity

definition DOUBLE_RANGE :: int where
  "DOUBLE_RANGE = 2 ^ 1024"

text \<open>\<^verbatim>\<open>Math.pow(2, n)\<close> for a counter \<open>n = 0, 1, 2, ...\<close>\<close>

definition math_pow2 :: "nat \<Rightarrow> jsnum" where
  "math_pow2 n = (if 2 ^ n < DOUBLE_RANGE then Fin (2 ^ n) else PosInfinity)"

text \<open>\<^verbatim>\<open>a * x\<close> for a positive integer constant \<open>a\<close>\<close>

fun js_times :: "int \<Rightarrow> jsnum \<Rightarrow> jsnum" where
  "js_times a (Fin x) = (if a * x < DOUBLE_RANGE then Fin (a * x) else PosInfinity)"
| "js_times a PosInfinity = PosInfinity"

text \<open>\<^verbatim>\<open>Math.min(x, b)\<close> for a finite \<open>b\<close>\<close>

fun math_min :: "jsnum \<Rightarrow> int \<Rightarrow> int" where
  "math_min (Fin x) b = min x b"
| "math_min PosInfinity b = b"

subsection \<open>Reconnect delay\<close>

text \<open>
  \<^verbatim>\<open>
  const MAX_RECONNECT_DELAY = 30000; // 30 seconds max
  const INITIAL_RECONNECT_DELAY = 1000; // 1 second initial

  function getReconnectDelay() {
    const delay = Math.min(
      INITIAL_RECONNECT_DELAY * Math.pow(2, reconnectAttempts),
      MAX_RECONNECT_DELAY
    );
    return delay;
  }
  \<close>
  The function reads the global \<^verbatim>\<open>reconnectAttempts\<close>; the model takes it as its
  argument.
\<close>

definition MAX_RECONNECT_DELAY :: int where
  "MAX_RECONNECT_DELAY = 30000"

definition INITIAL_RECONNECT_DELAY :: int where
  "INITIAL_RECONNECT_DELAY = 1000"

definition getReconnectDelay :: "nat \<Rightarrow> int" where
  "getReconnectDelay reconnectAttempts =
     math_min (js_times INITIAL_RECONNECT_DELAY (math_pow2 reconnectAttempts))
       MAX_RECONNECT_DELAY"

subsection \<open>Configuration, request, client\<close>

text \<open>
  The parsed \<^verbatim>\<open>config.yaml\<close>, with the keys this program reads. A filter list that
  is absent from the file is the empty list (the code treats both alike); an absent
  \<^verbatim>\<open>insecure\<close> key is \<open>None\<close>. A document that parses to something other than such
  an object is outside this type.
\<close>

record server_settings =
  address :: string
  authorization :: string
  insecure :: "bool option"

record filter_settings =
  programs :: "string list"
  pool :: "string list"
  traders :: "string list"
  signers :: "string list"

record config =
  server :: server_settings
  filters :: filter_settings

text \<open>The request object: a key is present only for a non-empty filter list.\<close>

record request =
  program_addresses :: "string list option"
  pool_addresses :: "string list option"
  trader_addresses :: "string list option"
  signer_addresses :: "string list option"

definition createRequest :: "config \<Rightarrow> request" where
  "createRequest cfg =
     \<lparr> program_addresses =
         (if programs (filters cfg) \<noteq> [] then Some (programs (filters cfg)) else None),
       pool_addresses =
         (if pool (filters cfg) \<noteq> [] then Some (pool (filters cfg)) else None),
       trader_addresses =
         (if traders (filters cfg) \<noteq> [] then Some (traders (filters cfg)) else None),
       signer_addresses =
         (if signers (filters cfg) \<noteq> [] then Some (signers (filters cfg)) else None) \<rparr>"

text \<open>A gRPC client for a server address; request metadata with its authorization entries.\<close>

datatype client_handle = CoreCast string

datatype grpc_metadata = Metadata "string list"

subsection \<open>Module state and the runtime around it\<close>

text \<open>
  What the program does to the outside is kept as a log of effects, oldest first.
  Console lines carry their fixed text only.
\<close>

datatype effect =
    StreamOpened nat client_handle "grpc_metadata option" request
  | StreamCancelled nat
  | TimeoutSet nat int
  | TimeoutCleared nat
  | ConsoleLog string
  | ConsoleError string

text \<open>
  The globals of the module, then the part of the Node runtime they refer to: the
  timeouts still pending (handle and delay), the intervals still active, the next fresh
  handle (streams and timers draw from one counter), and the effect log. The
  clock-valued globals \<^verbatim>\<open>startTime\<close> and \<^verbatim>\<open>lastReportTime\<close> are left out.
  \<^verbatim>\<open>reconnectAttempts\<close> is a natural number: the double that holds it counts
  exactly up to \<open>2 ^ 53\<close>.
\<close>

record state =
  config :: "config option"
  client :: "client_handle option"
  metadata :: "grpc_metadata option"
  currentStream :: "nat option"
  isReloading :: bool
  tradeCount :: nat
  tradesInLastInterval :: nat
  performanceTimer :: "nat option"
  reconnectAttempts :: nat
  reconnectTimer :: "nat option"
  isIntentionalDisconnect :: bool
  timeouts :: "(nat \<times> int) list"
  intervals :: "nat list"
  nextHandle :: nat
  effects :: "effect list"

definition initial_state :: state where
  "initial_state =
     \<lparr> config = None, client = None, metadata = None, currentStream = None,
       isReloading = False, tradeCount = 0, tradesInLastInterval = 0,
       performanceTimer = None, reconnectAttempts = 0, reconnectTimer = None,
       isIntentionalDisconnect = False, timeouts = [], intervals = [],
       nextHandle = 0, effects = [] \<rparr>"

definition console_log :: "string \<Rightarrow> state \<Rightarrow> state" where
  "console_log msg s = s\<lparr>effects := effects s @ [ConsoleLog msg]\<rparr>"

definition console_error :: "string \<Rightarrow> state \<Rightarrow> state" where
  "console_error msg s = s\<lparr>effects := effects s @ [ConsoleError msg]\<rparr>"

text \<open>
  A thrown exception is a value: \<open>Inl (e, s)\<close> is "threw \<open>e\<close>, leaving the state
  \<open>s\<close>", \<open>Inr s\<close> is a normal return.
\<close>

datatype error =
    ConfigurationNotLoaded
  | ClientNotInitialized
  | ClientConstructorError
  | MetadataError
  | StreamOpenError
  | TypeError

type_synonym outcome = "(error \<times> state) + state"

subsection \<open>Loading the configuration\<close>

text \<open>
  \<^verbatim>\<open>
  function loadConfig() {
    try {
      const newConfig = yaml.load(fs.readFileSync("./config.yaml", "utf8"));
      return newConfig;
    } catch (error) {
      console.error("Failed to load configuration:", error.message);
      return null;
    }
  }
  \<close>
  What the file system and the YAML parser do is the argument: reading or parsing
  throws, or it yields a value, which is a configuration or a falsy value (an empty
  document loads as \<^verbatim>\<open>undefined\<close>), here \<open>None\<close>.
\<close>

datatype load_result = LoadThrows | LoadValue "config option"

fun loadConfig :: "load_result \<Rightarrow> state \<Rightarrow> config option \<times> state" where
  "loadConfig LoadThrows s = (None, console_error ''Failed to load configuration:'' s)"
| "loadConfig (LoadValue v) s = (v, s)"

subsection \<open>initializeClient\<close>

text \<open>
  \<^verbatim>\<open>
  function initializeClient() {
    if (!config) {
      throw new Error("Configuration not loaded");
    }
    client = new solanaCorecast.CoreCast(config.server.address, grpc.credentials.createSsl());
    metadata = new grpc.Metadata();
    metadata.add("authorization", config.server.authorization);
  }
  \<close>
  The library calls may throw: the constructor (before \<^verbatim>\<open>client\<close> is assigned) or
  \<^verbatim>\<open>metadata.add\<close> (after both assignments).
\<close>

datatype init_outcome = InitOk | ConstructorThrows | MetadataAddThrows

definition initializeClient :: "init_outcome \<Rightarrow> state \<Rightarrow> outcome" where
  "initializeClient io s =
     (case config s of
        None \<Rightarrow> Inl (ConfigurationNotLoaded, s)
      | Some cfg \<Rightarrow>
          (case io of
             ConstructorThrows \<Rightarrow> Inl (ClientConstructorError, s)
           | MetadataAddThrows \<Rightarrow>
               Inl (MetadataError,
                 s\<lparr>client := Some (CoreCast (address (server cfg))),
                   metadata := Some (Metadata [])\<rparr>)
           | InitOk \<Rightarrow>
               Inr (s\<lparr>client := Some (CoreCast (address (server cfg))),
                 metadata := Some (Metadata [authorization (server cfg)])\<rparr>)))"

subsection \<open>stopStream\<close>

text \<open>
  \<^verbatim>\<open>
  function stopStream(intentional = false) {
    isIntentionalDisconnect = intentional;
    if (currentStream) {
      try { currentStream.cancel(); }
      catch (error) { console.error("Error stopping stream:", error.message); }
      currentStream = null;
    }
    if (performanceTimer) { clearInterval(performanceTimer); performanceTimer = null; }
    if (reconnectTimer) { clearTimeout(reconnectTimer); reconnectTimer = null; }
  }
  \<close>
  \<open>StreamCancelled\<close> records the call of \<^verbatim>\<open>cancel\<close>; should the call throw, the
  exception is caught and the function goes on the same way. \<^verbatim>\<open>clearTimeout\<close>
  removes the handle from the pending timeouts (a handle that has fired is no longer
  there, and clearing it changes nothing).
\<close>

definition stopStream :: "bool \<Rightarrow> state \<Rightarrow> state" where
  "stopStream intentional s =
     (let s1 = s\<lparr>isIntentionalDisconnect := intentional\<rparr>;
          s2 = (case currentStream s1 of
                  None \<Rightarrow> s1
                | Some sid \<Rightarrow>
                    s1\<lparr>currentStream := None,
                      effects := effects s1 @ [StreamCancelled sid]\<rparr>);
          s3 = (case performanceTimer s2 of
                  None \<Rightarrow> s2
                | Some h \<Rightarrow>
                    s2\<lparr>performanceTimer := None,
                      intervals := removeAll h (intervals s2)\<rparr>);
          s4 = (case reconnectTimer s3 of
                  None \<Rightarrow> s3
                | Some h \<Rightarrow>
                    s3\<lparr>reconnectTimer := None,
                      timeouts := filter (\<lambda>p. fst p \<noteq> h) (timeouts s3),
                      effects := effects s3 @ [TimeoutCleared h]\<rparr>)
      in s4)"

subsection \<open>Performance reporting\<close>

text \<open>
  \<^verbatim>\<open>printPerformanceStats\<close> prints and resets the interval counter;
  \<^verbatim>\<open>startPerformanceReporting(intervalSeconds, resetCounters)\<close> resets the counters
  when asked, clears a running interval timer and starts a new one.
\<close>

definition printPerformanceStats :: "state \<Rightarrow> state" where
  "printPerformanceStats s = s\<lparr>tradesInLastInterval := 0\<rparr>"

definition startPerformanceReporting :: "bool \<Rightarrow> state \<Rightarrow> state" where
  "startPerformanceReporting resetCounters s =
     (let s1 = (if resetCounters then s\<lparr>tradeCount := 0, tradesInLastInterval := 0\<rparr> else s);
          s2 = (case performanceTimer s1 of
                  None \<Rightarrow> s1
                | Some h \<Rightarrow> s1\<lparr>intervals := removeAll h (intervals s1)\<rparr>);
          h = nextHandle s2
      in s2\<lparr>performanceTimer := Some h, intervals := intervals s2 @ [h],
           nextHandle := Suc h\<rparr>)"

subsection \<open>startStream\<close>

text \<open>
  \<^verbatim>\<open>
  function startStream() {
    if (!client || !config) { throw new Error("Client not initialized"); }
    const request = createRequest();
    const stream = client.DexTrades(request, metadata);
    currentStream = stream;
    stream.on("data", ...); stream.on("error", ...); stream.on("end", ...);
    stream.on("status", ...);
    // Reset reconnect attempts on successful connection
    const isReconnecting = reconnectAttempts > 0;
    reconnectAttempts = 0;
    if (!performanceTimer) { startPerformanceReporting(30, true); }
    else { console.log("Reconnected! Trade counter preserved."); }
  }
  \<close>
  \<open>opens\<close> says whether the call of \<^verbatim>\<open>client.DexTrades\<close> returns a stream or
  throws. Both throws happen before any assignment.
\<close>

definition startStream :: "bool \<Rightarrow> state \<Rightarrow> outcome" where
  "startStream opens s =
     (case (client s, config s) of
        (Some cl, Some cfg) \<Rightarrow>
          if \<not> opens then Inl (StreamOpenError, s)
          else
            let sid = nextHandle s;
                s1 = s\<lparr>currentStream := Some sid, nextHandle := Suc sid,
                       effects := effects s @
                         [StreamOpened sid cl (metadata s) (createRequest cfg)]\<rparr>;
                s2 = s1\<lparr>reconnectAttempts := 0\<rparr>
            in Inr (if performanceTimer s2 = None then startPerformanceReporting True s2
                    else console_log ''Reconnected! Trade counter preserved.'' s2)
      | _ \<Rightarrow> Inl (ClientNotInitialized, s))"

subsection \<open>attemptReconnect and the timer callback\<close>

text \<open>
  \<^verbatim>\<open>
  function attemptReconnect() {
    if (isIntentionalDisconnect || isReloading) { return; }
    reconnectAttempts++;
    const delay = getReconnectDelay();
    console.log(`\nReconnecting in ${(delay / 1000).toFixed(1)}s (attempt ${reconnectAttempts})...`);
    reconnectTimer = setTimeout(() => {
      try {
        console.log("Attempting to reconnect...");
        startStream();
      } catch (error) {
        console.error("Reconnection failed:", error.message);
        attemptReconnect(); // Try again
      }
    }, delay);
  }
  \<close>
\<close>

definition attemptReconnect :: "state \<Rightarrow> state" where
  "attemptReconnect s =
     (if isIntentionalDisconnect s \<or> isReloading s then s
      else
        let s1 = s\<lparr>reconnectAttempts := reconnectAttempts s + 1\<rparr>;
            delay = getReconnectDelay (reconnectAttempts s1);
            s2 = console_log ''Reconnecting in'' s1;
            h = nextHandle s2
        in s2\<lparr>reconnectTimer := Some h, timeouts := timeouts s2 @ [(h, delay)],
             nextHandle := Suc h, effects := effects s2 @ [TimeoutSet h delay]\<rparr>)"

definition reconnectTimerCallback :: "bool \<Rightarrow> state \<Rightarrow> state" where
  "reconnectTimerCallback opens s =
     (let s1 = console_log ''Attempting to reconnect...'' s in
      case startStream opens s1 of
        Inr s2 \<Rightarrow> s2
      | Inl (e, s2) \<Rightarrow> attemptReconnect (console_error ''Reconnection failed:'' s2))"

subsection \<open>Stream event handlers\<close>

text \<open>
  The closures registered on every stream. None of them looks at the stream it is
  registered on, so an event carries no stream handle.
  \<^verbatim>\<open>
  stream.on("data", (message) => {
    if (message.Trade) { tradeCount++; tradesInLastInterval++; }
  });
  stream.on("error", (error) => {
    if (!isReloading && !isIntentionalDisconnect) {
      console.error("\nStream error:", error.details || error.message);
      console.error("Error code:", error.code);
      stopStream(false);
      attemptReconnect();
    }
  });
  stream.on("end", () => {
    if (!isReloading && !isIntentionalDisconnect) {
      console.log("\nStream ended unexpectedly");
      stopStream(false);
      attemptReconnect();
    }
  });
  \<close>
\<close>

definition onStreamData :: "bool \<Rightarrow> state \<Rightarrow> state" where
  "onStreamData hasTrade s =
     (if hasTrade
      then s\<lparr>tradeCount := tradeCount s + 1,
             tradesInLastInterval := tradesInLastInterval s + 1\<rparr>
      else s)"

definition onStreamError :: "state \<Rightarrow> state" where
  "onStreamError s =
     (if \<not> isReloading s \<and> \<not> isIntentionalDisconnect s
      then attemptReconnect (stopStream False
             (console_error ''Error code:'' (console_error ''Stream error:'' s)))
      else s)"

definition onStreamEnd :: "state \<Rightarrow> state" where
  "onStreamEnd s =
     (if \<not> isReloading s \<and> \<not> isIntentionalDisconnect s
      then attemptReconnect (stopStream False (console_log ''Stream ended unexpectedly'' s))
      else s)"

subsection \<open>reloadAndRestart\<close>

text \<open>
  \<^verbatim>\<open>
  function hasServerConfigChanged(oldConfig, newConfig) {
    return (
      oldConfig.server.address !== newConfig.server.address ||
      oldConfig.server.authorization !== newConfig.server.authorization ||
      oldConfig.server.insecure !== newConfig.server.insecure
    );
  }
  \<close>
\<close>

definition hasServerConfigChanged :: "config \<Rightarrow> config \<Rightarrow> bool" where
  "hasServerConfigChanged oldConfig newConfig \<longleftrightarrow>
     address (server oldConfig) \<noteq> address (server newConfig) \<or>
     authorization (server oldConfig) \<noteq> authorization (server newConfig) \<or>
     insecure (server oldConfig) \<noteq> insecure (server newConfig)"

text \<open>
  \<^verbatim>\<open>
  function reloadAndRestart() {
    if (isReloading) { return; } // Prevent concurrent reloads
    isReloading = true;
    const newConfig = loadConfig();
    if (!newConfig) {
      console.error("Failed to reload configuration, keeping current settings");
      isReloading = false;
      return;
    }
    const needsNewClient = hasServerConfigChanged(config, newConfig);
    stopStream(true);
    config = newConfig;
    if (needsNewClient) {
      try { initializeClient(); }
      catch (error) {
        console.error("Failed to initialize client:", error.message);
        isReloading = false;
        return;
      }
    }
    try { startStream(); isReloading = false; }
    catch (error) {
      console.error("Failed to start stream:", error.message);
      isReloading = false;
    }
  }
  \<close>
  \<open>restartStream\<close> is the last \<^verbatim>\<open>try\<close> block; \<open>reload_rest\<close> is the body from
  \<^verbatim>\<open>loadConfig()\<close> on, run in the state where \<^verbatim>\<open>isReloading\<close> has just been set.
  Reading \<^verbatim>\<open>config.server\<close> of a \<^verbatim>\<open>null\<close> configuration throws a TypeError
  that nothing catches.
\<close>

definition restartStream :: "bool \<Rightarrow> state \<Rightarrow> state" where
  "restartStream opens s =
     (case startStream opens s of
        Inr s1 \<Rightarrow> s1\<lparr>isReloading := False\<rparr>
      | Inl (e, s1) \<Rightarrow> (console_error ''Failed to start stream:'' s1)\<lparr>isReloading := False\<rparr>)"

definition reload_rest :: "load_result \<Rightarrow> init_outcome \<Rightarrow> bool \<Rightarrow> state \<Rightarrow> outcome" where
  "reload_rest lr io opens s =
     (case loadConfig lr s of
        (None, s1) \<Rightarrow>
          Inr ((console_error ''Failed to reload configuration, keeping current settings'' s1)
                 \<lparr>isReloading := False\<rparr>)
      | (Some newConfig, s1) \<Rightarrow>
          (case config s1 of
             None \<Rightarrow> Inl (TypeError, s1)
           | Some oldConfig \<Rightarrow>
               let needsNewClient = hasServerConfigChanged oldConfig newConfig;
                   s2 = stopStream True s1;
                   s3 = s2\<lparr>config := Some newConfig\<rparr>
               in if needsNewClient
                  then (case initializeClient io s3 of
                          Inl (e, s4) \<Rightarrow>
                            Inr ((console_error ''Failed to initialize client:'' s4)
                                   \<lparr>isReloading := False\<rparr>)
                        | Inr s4 \<Rightarrow> Inr (restartStream opens s4))
                  else Inr (restartStream opens s3)))"

definition reloadAndRestart :: "load_result \<Rightarrow> init_outcome \<Rightarrow> bool \<Rightarrow> state \<Rightarrow> outcome" where
  "reloadAndRestart lr io opens s =
     (if isReloading s then Inr s
      else reload_rest lr io opens (s\<lparr>isReloading := True\<rparr>))"

subsection \<open>The process: startup, events, exit\<close>

text \<open>
  \<open>Exited code s\<close> is the process after \<^verbatim>\<open>process.exit(code)\<close> (an uncaught
  exception ends a Node process with code 1), with the state it left.
\<close>

datatype process = Running state | Exited int state

fun state_of :: "process \<Rightarrow> state" where
  "state_of (Running s) = s"
| "state_of (Exited code s) = s"

text \<open>
  \<^verbatim>\<open>
  try {
    config = loadConfig();
    if (!config) { console.error("Failed to load configuration"); process.exit(1); }
    initializeClient();
    startStream();
  } catch (error) {
    console.error("Failed to start stream:", error);
    process.exit(1);
  }
  \<close>
\<close>

definition startup :: "load_result \<Rightarrow> init_outcome \<Rightarrow> bool \<Rightarrow> process" where
  "startup lr io opens =
     (case loadConfig lr initial_state of
        (None, s1) \<Rightarrow> Exited 1 (console_error ''Failed to load configuration'' s1)
      | (Some cfg, s1) \<Rightarrow>
          (case initializeClient io (s1\<lparr>config := Some cfg\<rparr>) of
             Inl (e, s2) \<Rightarrow> Exited 1 (console_error ''Failed to start stream:'' s2)
           | Inr s2 \<Rightarrow>
               (case startStream opens s2 of
                  Inl (e, s3) \<Rightarrow> Exited 1 (console_error ''Failed to start stream:'' s3)
                | Inr s3 \<Rightarrow> Running s3)))"

text \<open>
  The callbacks the event loop can run once the module has been loaded: a stream event,
  a pending timeout that fires (with what \<^verbatim>\<open>client.DexTrades\<close> does then), an
  active interval that ticks, the debounced file watcher calling
  \<^verbatim>\<open>reloadAndRestart\<close> (with what loading, client construction and
  \<^verbatim>\<open>client.DexTrades\<close> do then), and SIGINT or SIGTERM:
  \<^verbatim>\<open>
  process.on("SIGINT", () => { console.log(...); stopStream(true); process.exit(0); });
  \<close>
  A timeout that is not pending and an interval that is not active cannot fire.
\<close>

datatype event =
    StreamData bool
  | StreamError
  | StreamEnd
  | StreamStatus
  | TimeoutFires nat bool
  | IntervalFires nat
  | ConfigChanged load_result init_outcome bool
  | Signal

fun step :: "event \<Rightarrow> state \<Rightarrow> process" where
  "step (StreamData hasTrade) s = Running (onStreamData hasTrade s)"
| "step StreamError s = Running (onStreamError s)"
| "step StreamEnd s = Running (onStreamEnd s)"
| "step StreamStatus s = Running s"
| "step (TimeoutFires h opens) s =
     (if h \<in> fst ` set (timeouts s)
      then Running (reconnectTimerCallback opens
             (s\<lparr>timeouts := filter (\<lambda>p. fst p \<noteq> h) (timeouts s)\<rparr>))
      else Running s)"
| "step (IntervalFires h) s =
     (if h \<in> set (intervals s) then Running (printPerformanceStats s) else Running s)"
| "step (ConfigChanged lr io opens) s =
     (case reloadAndRestart lr io opens s of
        Inr s1 \<Rightarrow> Running s1
      | Inl (e, s1) \<Rightarrow> Exited 1 s1)"
| "step Signal s = Exited 0 (stopStream True (console_log ''Shutting down gracefully...'' s))"

fun run :: "event list \<Rightarrow> process \<Rightarrow> process" where
  "run [] p = p"
| "run (e # es) (Running s) = run es (step e s)"
| "run (e # es) (Exited code s) = Exited code s"

section \<open>Observing a run\<close>

text \<open>What the effect log says: the delays of the timeouts set, the streams opened, the
  streams cancelled, and how often the timer callback has tried to reconnect.\<close>

fun scheduled_delays :: "effect list \<Rightarrow> int list" where
  "scheduled_delays [] = []"
| "scheduled_delays (TimeoutSet h d # es) = d # scheduled_delays es"
| "scheduled_delays (e # es) = scheduled_delays es"

fun opened_streams :: "effect list \<Rightarrow> nat list" where
  "opened_streams [] = []"
| "opened_streams (StreamOpened sid cl md rq # es) = sid # opened_streams es"
| "opened_streams (e # es) = opened_streams es"

fun cancelled_streams :: "effect list \<Rightarrow> nat list" where
  "cancelled_streams [] = []"
| "cancelled_streams (StreamCancelled sid # es) = sid # cancelled_streams es"
| "cancelled_streams (e # es) = cancelled_streams es"

definition reconnect_attempts :: "effect list \<Rightarrow> nat" where
  "reconnect_attempts es = count_list es (ConsoleLog ''Attempting to reconnect...'')"

text \<open>A reconfigure request, as opposed to the callbacks of streams, timers and signals.\<close>

fun is_reconfigure :: "event \<Rightarrow> bool" where
  "is_reconfigure (ConfigChanged lr io opens) = True"
| "is_reconfigure e = False"

subsection \<open>Invariants of the supervisor\<close>

text \<open>
  \<open>idle\<close>: a running process is not reloading and has a configuration.
  \<open>timers_tracked\<close>: every pending timeout is the one \<^verbatim>\<open>reconnectTimer\<close> refers to.
  \<open>quiet\<close>: the disconnect is intentional and no timeout is pending.
  \<open>streams_closed\<close>: every stream that was opened has been cancelled.
  \<open>one_stream\<close>: every opened stream but the current one has been cancelled, and no
  timeout is pending while a stream is current.
  \<open>same_timers\<close> and \<open>same_streams\<close> relate two states that agree on what these
  invariants read.
\<close>

definition idle :: "process \<Rightarrow> bool" where
  "idle p \<longleftrightarrow>
     (case p of
        Running s \<Rightarrow> \<not> isReloading s \<and> config s \<noteq> None
      | Exited code s \<Rightarrow> True)"

definition timers_tracked :: "state \<Rightarrow> bool" where
  "timers_tracked s \<longleftrightarrow> (\<forall>p \<in> set (timeouts s). reconnectTimer s = Some (fst p))"

definition quiet :: "state \<Rightarrow> bool" where
  "quiet s \<longleftrightarrow> isIntentionalDisconnect s \<and> timeouts s = []"

definition same_timers :: "state \<Rightarrow> state \<Rightarrow> bool" where
  "same_timers s s' \<longleftrightarrow>
     timeouts s' = timeouts s \<and> reconnectTimer s' = reconnectTimer s \<and>
     isIntentionalDisconnect s' = isIntentionalDisconnect s \<and>
     reconnect_attempts (effects s') = reconnect_attempts (effects s)"

definition streams_closed :: "state \<Rightarrow> bool" where
  "streams_closed s \<longleftrightarrow>
     set (opened_streams (effects s)) \<subseteq> set (cancelled_streams (effects s))"

definition one_stream :: "state \<Rightarrow> bool" where
  "one_stream s \<longleftrightarrow>
     (case currentStream s of
        None \<Rightarrow> streams_closed s
      | Some cur \<Rightarrow>
          timeouts s = [] \<and>
          set (opened_streams (effects s)) \<subseteq> insert cur (set (cancelled_streams (effects s))))"

definition same_streams :: "state \<Rightarrow> state \<Rightarrow> bool" where
  "same_streams s s' \<longleftrightarrow>
     currentStream s' = currentStream s \<and> timeouts s' = timeouts s \<and>
     opened_streams (effects s') = opened_streams (effects s) \<and>
     cancelled_streams (effects s') = cancelled_streams (effects s)"

subsection \<open>A concrete run\<close>

text \<open>A configuration, the process started with it, and the state after its stream has
  failed once (a reconnect is pending); a second configuration with the same server, and
  the state after the pending reconnect has succeeded.\<close>

definition example_config :: config where
  "example_config =
     \<lparr> server = \<lparr> address = ''corecast.example:443'', authorization = ''token'', insecure = None \<rparr>,
       filters = \<lparr> programs = [''P''], pool = [], traders = [], signers = [] \<rparr> \<rparr>"

definition example_started :: process where
  "example_started = startup (LoadValue (Some example_config)) InitOk True"

definition example_pending :: state where
  "example_pending = state_of (run [StreamError] example_started)"

definition example_target :: config where
  "example_target =
     \<lparr> server = \<lparr> address = ''corecast.example:443'', authorization = ''token'', insecure = None \<rparr>,
       filters = \<lparr> programs = [], pool = [''Q''], traders = [], signers = [] \<rparr> \<rparr>"

definition example_reconnected :: state where
  "example_reconnected = state_of (run [StreamError, TimeoutFires 2 True] example_started)"


section \<open>Addresses as text\<close>

subsection \<open>Bytes, hexadecimal keys, Base58\<close>

text \<open>
  A protobuf \<^verbatim>\<open>bytes\<close> field arrives as a byte array, or is absent
  (\<^verbatim>\<open>undefined\<close>, \<open>None\<close>). \<^verbatim>\<open>Buffer.from(bytes).toString("hex")\<close> writes two
  lower-case hexadecimal digits per byte.
\<close>

type_synonym byte = "8 word"

definition HEX_DIGITS :: string where
  "HEX_DIGITS = ''0123456789abcdef''"

definition hex_byte :: "byte \<Rightarrow> string" where
  "hex_byte b = [HEX_DIGITS ! (unat b div 16), HEX_DIGITS ! (unat b mod 16)]"

definition to_hex :: "byte list \<Rightarrow> string" where
  "to_hex bs = concat (map hex_byte bs)"

text \<open>
  \<^verbatim>\<open>bs58.encode\<close> belongs to the npm package \<^verbatim>\<open>bs58\<close>, not to this repository,
  so both \<^verbatim>\<open>toBase58\<close> functions take the encoder as their first argument: it
  returns the text, or \<open>None\<close> where the call throws. \<open>bs58_encode\<close> is the Base58
  encoding that package implements (Bitcoin alphabet): one \<^verbatim>\<open>1\<close> per leading zero
  byte, then the big-endian value of the bytes in base 58. It is used where a statement
  needs a concrete encoder.
\<close>

definition ALPHABET :: string where
  "ALPHABET = ''123456789ABCDEFGHJKLMNPQRSTUVWXYZabcdefghijkmnopqrstuvwxyz''"

definition bytes_value :: "byte list \<Rightarrow> nat" where
  "bytes_value bs = foldl (\<lambda>acc b. acc * 256 + unat b) 0 bs"

function base58_digits :: "nat \<Rightarrow> nat list" where
  "base58_digits n = (if n = 0 then [] else base58_digits (n div 58) @ [n mod 58])"
  by pat_completeness auto
termination
  by (relation "measure id") auto

declare base58_digits.simps [simp del]

definition bs58_encode :: "byte list \<Rightarrow> string" where
  "bs58_encode bs =
     replicate (length (takeWhile (\<lambda>b. b = 0) bs)) (CHR ''1'') @
     map (\<lambda>d. ALPHABET ! d) (base58_digits (bytes_value bs))"

subsection \<open>toBase58 of the second program\<close>

text \<open>
  \<^verbatim>\<open>
  function toBase58(bytes) {
    if (!bytes || bytes.length === 0) return "undefined";
    try {
      return bs58.encode(bytes);
    } catch (error) {
      return "invalid_address";
    }
  }
  \<close>
\<close>

definition toBase58 :: "(byte list \<Rightarrow> string option) \<Rightarrow> byte list option \<Rightarrow> string" where
  "toBase58 encode bytes =
     (case bytes of
        None \<Rightarrow> ''undefined''
      | Some bs \<Rightarrow>
          if length bs = 0 then ''undefined''
          else (case encode bs of Some result \<Rightarrow> result | None \<Rightarrow> ''invalid_address''))"

section \<open>The filtering client (first program of index.js)\<close>

subsection \<open>toBase58 with its cache\<close>

text \<open>
  \<^verbatim>\<open>
  const base58Cache = new Map();
  const MAX_CACHE_SIZE = 10000;

  function toBase58(bytes) {
    if (!bytes || bytes.length === 0) return "undefined";
    const cacheKey = Buffer.from(bytes).toString("hex");
    if (base58Cache.has(cacheKey)) {
      return base58Cache.get(cacheKey);
    }
    try {
      const result = bs58.encode(bytes);
      if (base58Cache.size >= MAX_CACHE_SIZE) {
        const firstKey = base58Cache.keys().next().value;
        base58Cache.delete(firstKey);
      }
      base58Cache.set(cacheKey, result);
      return result;
    } catch (error) {
      return "invalid_address";
    }
  }
  \<close>
  A \<^verbatim>\<open>Map\<close> keeps its entries in insertion order: it is an association list, oldest
  entry first; \<^verbatim>\<open>set\<close> replaces the value of a key in place or appends a new entry
  (\<open>AList.update\<close>), \<^verbatim>\<open>delete\<close> removes the entries of a key (\<open>AList.delete\<close>).
  The function returns its text together with the cache it leaves.
\<close>

definition MAX_CACHE_SIZE :: nat where
  "MAX_CACHE_SIZE = 10000"

type_synonym cache = "(string \<times> string) list"

definition toBase58_cached ::
  "(byte list \<Rightarrow> string option) \<Rightarrow> cache \<Rightarrow> byte list option \<Rightarrow> string \<times> cache" where
  "toBase58_cached encode base58Cache bytes =
     (case bytes of
        None \<Rightarrow> (''undefined'', base58Cache)
      | Some bs \<Rightarrow>
          if length bs = 0 then (''undefined'', base58Cache)
          else
            let cacheKey = to_hex bs in
            (case map_of base58Cache cacheKey of
               Some cached \<Rightarrow> (cached, base58Cache)
             | None \<Rightarrow>
                 (case encode bs of
                    Some result \<Rightarrow>
                      let evicted =
                            (if length base58Cache \<ge> MAX_CACHE_SIZE
                             then (case base58Cache of
                                     [] \<Rightarrow> base58Cache
                                   | (firstKey, v) # rest \<Rightarrow> AList.delete firstKey base58Cache)
                             else base58Cache)
                      in (result, AList.update cacheKey result evicted)
                  | None \<Rightarrow> (''invalid_address'', base58Cache))))"

text \<open>The cache after a sequence of calls, starting from the empty \<^verbatim>\<open>Map\<close> of the
  module; \<open>cache_sound\<close>: every entry maps the key of some byte array to its encoding.\<close>

definition cache_after :: "(byte list \<Rightarrow> string option) \<Rightarrow> byte list option list \<Rightarrow> cache" where
  "cache_after encode calls = foldl (\<lambda>c bytes. snd (toBase58_cached encode c bytes)) [] calls"

definition cache_sound :: "(byte list \<Rightarrow> string option) \<Rightarrow> cache \<Rightarrow> bool" where
  "cache_sound encode c \<longleftrightarrow>
     (\<forall>k v. map_of c k = Some v \<longrightarrow> (\<exists>bs. k = to_hex bs \<and> encode bs = Some v))"

subsection \<open>Startup and the trade filter\<close>

text \<open>
  \<^verbatim>\<open>
  const config = yaml.load(fs.readFileSync("./config.yaml", "utf8"));
  // Get trade filter setting (default to "alltrades")
  const tradeFilter = config.trade_filter || "alltrades";
  // Validate trade filter
  if (!["alltrades", "buys", "sells"].includes(tradeFilter)) {
    console.error(`Invalid trade_filter: "${tradeFilter}". Must be one of: alltrades, buys, sells`);
    process.exit(1);
  }
  \<close>
  The value of the key \<^verbatim>\<open>trade_filter\<close> is whatever YAML holds there:
  \<^verbatim>\<open>undefined\<close> for a missing key, \<^verbatim>\<open>null\<close>, a boolean, a number (a number that
  is not an integer behaves like a non-zero integer here), a string, or a sequence or
  mapping. \<open>truthy\<close> is JavaScript's truthiness, which \<^verbatim>\<open>||\<close> tests;
  \<^verbatim>\<open>includes\<close> finds a value only if it is one of the three strings.
\<close>

datatype yaml_value =
  YUndefined | YNull | YBool bool | YNumber int | YNaN | YString string | YCollection

fun truthy :: "yaml_value \<Rightarrow> bool" where
  "truthy YUndefined = False"
| "truthy YNull = False"
| "truthy (YBool b) = b"
| "truthy (YNumber n) = (n \<noteq> 0)"
| "truthy YNaN = False"
| "truthy (YString s) = (s \<noteq> [])"
| "truthy YCollection = True"

definition tradeFilter :: "yaml_value \<Rightarrow> yaml_value" where
  "tradeFilter trade_filter = (if truthy trade_filter then trade_filter else YString ''alltrades'')"

definition TRADE_FILTERS :: "yaml_value list" where
  "TRADE_FILTERS = [YString ''alltrades'', YString ''buys'', YString ''sells'']"

text \<open>
  After the validation the module builds the gRPC client (a throw there is an uncaught
  exception, which ends the process with code 1) and calls \<^verbatim>\<open>listenToStream\<close>:
  \<^verbatim>\<open>
  switch (config.stream.type) {
    case "dex_trades": stream = client.DexTrades(request, metadata); break;
    case "dex_orders": stream = client.DexOrders(request, metadata); break;
    case "dex_pools": stream = client.DexPools(request, metadata); break;
    case "transactions": stream = client.Transactions(request, metadata); break;
    case "transfers": stream = client.Transfers(request, metadata); break;
    case "balances": stream = client.Balances(request, metadata); break;
    default: throw new Error(`Unsupported stream type: ${config.stream.type}`);
  }
  ...
  try { listenToStream(); }
  catch (error) { console.error("Failed to start stream:", error); process.exit(1); }
  \<close>
  The process either exits with a code or is left listening; either way with what it
  has written to the error console and the streams it has subscribed to, in order.
  \<open>listenToStream\<close> is \<open>None\<close> where it throws. \<open>first_program\<close> is the
  top-level code of the module from the validation on; \<open>client_ok\<close> says whether
  building the client returns, \<open>opens\<close> whether the subscribing call returns a stream.
\<close>

datatype first_output = ErrorLine string | Subscribed string

datatype first_process = FirstExited int "first_output list" | FirstListening "first_output list"

definition stream_method :: "string \<Rightarrow> string option" where
  "stream_method stream_type =
     (if stream_type = ''dex_trades'' then Some ''DexTrades''
      else if stream_type = ''dex_orders'' then Some ''DexOrders''
      else if stream_type = ''dex_pools'' then Some ''DexPools''
      else if stream_type = ''transactions'' then Some ''Transactions''
      else if stream_type = ''transfers'' then Some ''Transfers''
      else if stream_type = ''balances'' then Some ''Balances''
      else None)"

definition listenToStream :: "string \<Rightarrow> bool \<Rightarrow> first_output option" where
  "listenToStream stream_type opens =
     (case stream_method stream_type of
        None \<Rightarrow> None
      | Some m \<Rightarrow> if opens then Some (Subscribed m) else None)"

definition first_program :: "yaml_value \<Rightarrow> string \<Rightarrow> bool \<Rightarrow> bool \<Rightarrow> first_process" where
  "first_program trade_filter stream_type client_ok opens =
     (if tradeFilter trade_filter \<notin> set TRADE_FILTERS
      then FirstExited 1 [ErrorLine ''Invalid trade_filter'']
      else if \<not> client_ok then FirstExited 1 [ErrorLine ''Uncaught exception'']
      else (case listenToStream stream_type opens of
              None \<Rightarrow> FirstExited 1 [ErrorLine ''Failed to start stream:'']
            | Some out \<Rightarrow> FirstListening [out]))"

section \<open>Properties of the backoff delay\<close>

lemma max_delay_in_range: "(30000 :: int) < 2 ^ 1024"
proof -
  have "(30000 :: int) < 2 ^ 15" by simp
  also have "(2 :: int) ^ 15 \<le> 2 ^ 1024" by (rule power_increasing) simp_all
  finally show ?thesis .
qed

lemma pow2_ge_32: "5 \<le> n \<Longrightarrow> (32 :: int) \<le> 2 ^ n"
proof -
  assume "5 \<le> n"
  then have "(2 :: int) ^ 5 \<le> 2 ^ n" by (intro power_increasing) simp_all
  then show ?thesis by simp
qed

lemma pow2_out_of_range: "\<not> (2 :: int) ^ n < 2 ^ 1024 \<Longrightarrow> 5 \<le> n"
proof (rule ccontr)
  assume big: "\<not> (2 :: int) ^ n < 2 ^ 1024" and "\<not> 5 \<le> n"
  then have "n < 1024" by simp
  then have "(2 :: int) ^ n < 2 ^ 1024" by (intro power_strict_increasing) simp_all
  with big show False by simp
qed

lemma getReconnectDelay_closed_form:
  "getReconnectDelay n = min (1000 * 2 ^ n) 30000"
proof (cases "(2 :: int) ^ n < 2 ^ 1024")
  case small: True
  show ?thesis
  proof (cases "(1000 :: int) * 2 ^ n < 2 ^ 1024")
    case True
    with small show ?thesis
      by (simp add: getReconnectDelay_def math_pow2_def DOUBLE_RANGE_def
          INITIAL_RECONNECT_DELAY_def MAX_RECONNECT_DELAY_def)
  next
    case False
    with max_delay_in_range have "(30000 :: int) \<le> 1000 * 2 ^ n" by linarith
    with small False show ?thesis
      by (simp add: getReconnectDelay_def math_pow2_def DOUBLE_RANGE_def
          INITIAL_RECONNECT_DELAY_def MAX_RECONNECT_DELAY_def)
  qed
next
  case False
  then have "(32 :: int) \<le> 2 ^ n" by (intro pow2_ge_32 pow2_out_of_range)
  then have "(30000 :: int) \<le> 1000 * 2 ^ n" by linarith
  with False show ?thesis
    by (simp add: getReconnectDelay_def math_pow2_def DOUBLE_RANGE_def
        INITIAL_RECONNECT_DELAY_def MAX_RECONNECT_DELAY_def)
qed

text \<open>
  C1. For every attempt count \<open>n\<close> (a natural number, so non-negative), the delay
  computed by \<^verbatim>\<open>getReconnectDelay\<close> is \<open>min (initialDelay * 2 ^ n) maxDelay\<close> with
  \<open>initialDelay = 1000\<close> and \<open>maxDelay = 30000\<close> milliseconds; the overflow of the
  double to \<^verbatim>\<open>Infinity\<close> for large \<open>n\<close> does not change that.
\<close>

theorem C1_delay_is_capped_doubling:
  "getReconnectDelay n = min (INITIAL_RECONNECT_DELAY * 2 ^ n) MAX_RECONNECT_DELAY
   \<and> INITIAL_RECONNECT_DELAY = 1000 \<and> MAX_RECONNECT_DELAY = 30000"
  by (simp add: getReconnectDelay_closed_form INITIAL_RECONNECT_DELAY_def
      MAX_RECONNECT_DELAY_def)

text \<open>
  C8. The delay is monotonically non-decreasing in the attempt count: for attempt
  counts \<open>m \<le> n\<close>, the delay at \<open>m\<close> is at most the delay at \<open>n\<close>.
\<close>

theorem C8_delay_monotone:
  "m \<le> n \<Longrightarrow> getReconnectDelay m \<le> getReconnectDelay n"
proof -
  assume "m \<le> n"
  then have "(2 :: int) ^ m \<le> 2 ^ n" by (intro power_increasing) simp_all
  then have "(1000 :: int) * 2 ^ m \<le> 1000 * 2 ^ n" by simp
  then show ?thesis
    unfolding getReconnectDelay_closed_form by (rule min.mono) simp
qed

theorem C8_delay_monotone_witness:
  "(3 :: nat) \<le> 5 \<and> getReconnectDelay 3 = 8000 \<and> getReconnectDelay 5 = 30000
   \<and> getReconnectDelay 3 \<le> getReconnectDelay 5"
  using C8_delay_monotone [of 3 5] by (simp add: getReconnectDelay_closed_form)

section \<open>The reconnect run on a concrete process\<close>

text \<open>The equations that evaluate the concrete run, and those that evaluate a reload.\<close>

lemmas example_defs = example_started_def example_config_def
  startup_def initial_state_def initializeClient_def startStream_def
  startPerformanceReporting_def createRequest_def onStreamError_def onStreamEnd_def
  onStreamData_def console_error_def console_log_def stopStream_def attemptReconnect_def
  reconnectTimerCallback_def getReconnectDelay_closed_form

lemmas reload_defs = reloadAndRestart_def reload_rest_def restartStream_def
  hasServerConfigChanged_def

lemma scheduled_delays_append [simp]:
  "scheduled_delays (xs @ ys) = scheduled_delays xs @ scheduled_delays ys"
  by (induction xs rule: scheduled_delays.induct) simp_all

lemma stopStream_schedules_nothing [simp]:
  "scheduled_delays (effects (stopStream b s)) = scheduled_delays (effects s)"
  by (simp add: stopStream_def Let_def split: option.splits)

lemma stopStream_keeps_counter [simp]:
  "reconnectAttempts (stopStream b s) = reconnectAttempts s"
  "isReloading (stopStream b s) = isReloading s"
  "isIntentionalDisconnect (stopStream b s) = b"
  by (simp_all add: stopStream_def Let_def split: option.splits)

lemma startStream_resets_counter:
  "startStream opens s = Inr s' \<Longrightarrow> reconnectAttempts s' = 0"
  by (auto simp: startStream_def Let_def startPerformanceReporting_def console_log_def
      split: option.splits if_splits)

text \<open>
  Whenever the counter is 0 (as it is after every successful \<^verbatim>\<open>startStream\<close>) and
  the disconnect is not intentional, the next stream error schedules exactly one
  timeout, of 2000 milliseconds.
\<close>

lemma delay_of_first_failure:
  assumes "reconnectAttempts s = 0" and "\<not> isReloading s" and "\<not> isIntentionalDisconnect s"
  shows "scheduled_delays (effects (onStreamError s)) = scheduled_delays (effects s) @ [2000]"
  using assms
  by (simp add: onStreamError_def attemptReconnect_def Let_def console_log_def
      console_error_def getReconnectDelay_closed_form)

text \<open>
  C2 (what the code does). The process has started (attempt counter 0); its stream
  fails, and each of the five following reconnect attempts fails in
  \<^verbatim>\<open>startStream\<close>. \<^verbatim>\<open>attemptReconnect\<close> increments the counter before it
  computes the delay, so the six delays scheduled are 2000, 4000, 8000, 16000, 30000,
  30000 milliseconds: the run never waits the initial 1000.
\<close>

theorem C2_six_failures_delays:
  "reconnectAttempts (state_of example_started) = 0
   \<and> scheduled_delays (effects (state_of
        (run [StreamError, TimeoutFires 2 False, TimeoutFires 3 False, TimeoutFires 4 False,
              TimeoutFires 5 False, TimeoutFires 6 False] example_started)))
       = [2000, 4000, 8000, 16000, 30000, 30000]"
  by (simp add: example_defs)

text \<open>
  C3 (what the code does). A successful \<^verbatim>\<open>startStream\<close> leaves the attempt counter
  at 0, at startup and after a reconnect alike; the delay scheduled for the next
  failure is nevertheless 2000 milliseconds, the delay of count 1, while the delay of
  count 0 is 1000.
\<close>

theorem C3_delay_after_successful_start:
  "reconnectAttempts (state_of example_started) = 0
   \<and> scheduled_delays (effects (state_of (run [StreamError] example_started))) = [2000]
   \<and> reconnectAttempts (state_of (run [StreamError, TimeoutFires 2 True] example_started)) = 0
   \<and> scheduled_delays (effects (state_of
        (run [StreamError, TimeoutFires 2 True, StreamError] example_started))) = [2000, 2000]
   \<and> getReconnectDelay 0 = 1000"
  by (simp add: example_defs)

section \<open>What the handlers leave unchanged\<close>

lemma opened_streams_append [simp]:
  "opened_streams (xs @ ys) = opened_streams xs @ opened_streams ys"
  by (induction xs rule: opened_streams.induct) simp_all

lemma reconnect_attempts_append [simp]:
  "reconnect_attempts (xs @ ys) = reconnect_attempts xs + reconnect_attempts ys"
  by (simp add: reconnect_attempts_def)

lemma stopStream_flags [simp]:
  "config (stopStream b s) = config s"
  "client (stopStream b s) = client s"
  "metadata (stopStream b s) = metadata s"
  "currentStream (stopStream b s) = None"
  "reconnectTimer (stopStream b s) = None"
  "performanceTimer (stopStream b s) = None"
  by (simp_all add: stopStream_def Let_def split: option.splits)

lemma stopStream_timeouts:
  "timeouts (stopStream b s) =
     (case reconnectTimer s of None \<Rightarrow> timeouts s
      | Some h \<Rightarrow> filter (\<lambda>p. fst p \<noteq> h) (timeouts s))"
  by (simp add: stopStream_def Let_def split: option.splits)

lemma stopStream_clears_tracked:
  "timers_tracked s \<Longrightarrow> timeouts (stopStream b s) = []"
  by (cases "timeouts s") (auto simp: stopStream_timeouts timers_tracked_def filter_empty_conv split: option.splits)

lemma stopStream_quiet_timeouts:
  "timeouts s = [] \<Longrightarrow> timeouts (stopStream b s) = []"
  by (simp add: stopStream_timeouts split: option.splits)

lemma stopStream_opened [simp]:
  "opened_streams (effects (stopStream b s)) = opened_streams (effects s)"
  by (simp add: stopStream_def Let_def split: option.splits)

lemma stopStream_attempts [simp]:
  "reconnect_attempts (effects (stopStream b s)) = reconnect_attempts (effects s)"
  by (simp add: stopStream_def Let_def reconnect_attempts_def split: option.splits)

lemma stopStream_stopped:
  "currentStream s = None \<Longrightarrow> performanceTimer s = None \<Longrightarrow> reconnectTimer s = None
   \<Longrightarrow> isIntentionalDisconnect s = b \<Longrightarrow> stopStream b s = s"
  by (simp add: stopStream_def)

lemma stopStream_idem:
  "stopStream b (stopStream b s) = stopStream b s"
  by (rule stopStream_stopped) simp_all


lemma console_proj [simp]:
  "timeouts (console_log m s) = timeouts s"
  "reconnectTimer (console_log m s) = reconnectTimer s"
  "isIntentionalDisconnect (console_log m s) = isIntentionalDisconnect s"
  "isReloading (console_log m s) = isReloading s"
  "config (console_log m s) = config s"
  "timeouts (console_error m s) = timeouts s"
  "reconnectTimer (console_error m s) = reconnectTimer s"
  "isIntentionalDisconnect (console_error m s) = isIntentionalDisconnect s"
  "isReloading (console_error m s) = isReloading s"
  "config (console_error m s) = config s"
  "opened_streams (effects (console_log m s)) = opened_streams (effects s)"
  "opened_streams (effects (console_error m s)) = opened_streams (effects s)"
  "reconnect_attempts (effects (console_error m s)) = reconnect_attempts (effects s)"
  by (simp_all add: console_log_def console_error_def reconnect_attempts_def)

lemma timers_tracked_console [simp]:
  "timers_tracked (console_log m s) = timers_tracked s"
  "timers_tracked (console_error m s) = timers_tracked s"
  by (simp_all add: timers_tracked_def)

lemma timers_tracked_empty: "timeouts s = [] \<Longrightarrow> timers_tracked s"
  by (simp add: timers_tracked_def)

lemma startStream_throws: "startStream opens s = Inl (e, s') \<Longrightarrow> s' = s"
  by (auto simp: startStream_def Let_def split: option.splits if_splits)

lemma startStream_returns:
  assumes "startStream opens s = Inr s'"
  shows "timeouts s' = timeouts s" and "reconnectTimer s' = reconnectTimer s"
    and "isIntentionalDisconnect s' = isIntentionalDisconnect s"
    and "isReloading s' = isReloading s" and "config s' = config s"
    and "reconnectAttempts s' = 0"
    and "reconnect_attempts (effects s') = reconnect_attempts (effects s)"
  using assms
  by (auto simp: startStream_def Let_def startPerformanceReporting_def console_log_def
      reconnect_attempts_def split: option.splits if_splits)

lemma attemptReconnect_intentional:
  "isIntentionalDisconnect s \<Longrightarrow> attemptReconnect s = s"
  by (simp add: attemptReconnect_def)

lemma attemptReconnect_tracked:
  "timeouts s = [] \<Longrightarrow> timers_tracked (attemptReconnect s)"
  by (simp add: attemptReconnect_def Let_def timers_tracked_def console_log_def)

lemma reconnectTimerCallback_tracked:
  "timeouts s = [] \<Longrightarrow> timers_tracked (reconnectTimerCallback opens s)"
proof -
  assume none: "timeouts s = []"
  let ?s1 = "console_log ''Attempting to reconnect...'' s"
  show ?thesis
  proof (cases "startStream opens ?s1")
    case (Inl thrown)
    obtain e s2 where thrown: "thrown = (e, s2)" by (cases thrown)
    with Inl have "s2 = ?s1" by (auto dest: startStream_throws)
    with Inl thrown none show ?thesis
      by (simp add: reconnectTimerCallback_def attemptReconnect_tracked)
  next
    case (Inr s2)
    with none have "timeouts s2 = []" by (simp add: startStream_returns(1))
    with Inr show ?thesis
      by (simp add: reconnectTimerCallback_def timers_tracked_empty)
  qed
qed

lemma fired_timer_was_the_only_one:
  assumes "timers_tracked s" and "h \<in> fst ` set (timeouts s)"
  shows "filter (\<lambda>p. fst p \<noteq> h) (timeouts s) = []"
proof -
  from assms have "reconnectTimer s = Some h" by (auto simp: timers_tracked_def)
  with assms(1) show ?thesis by (auto simp: timers_tracked_def filter_empty_conv)
qed

lemma cancelled_streams_append [simp]:
  "cancelled_streams (xs @ ys) = cancelled_streams xs @ cancelled_streams ys"
  by (induction xs rule: cancelled_streams.induct) simp_all

lemma same_timers_refl [simp]: "same_timers s s"
  by (simp add: same_timers_def)

lemma same_timers_trans: "same_timers s t \<Longrightarrow> same_timers t u \<Longrightarrow> same_timers s u"
  by (simp add: same_timers_def)

lemma same_timers_console_error [simp]:
  "same_timers s (console_error m t) = same_timers s t"
  by (simp add: same_timers_def)

lemma same_timers_isReloading [simp]:
  "same_timers s (t\<lparr>isReloading := b\<rparr>) = same_timers s t"
  "same_timers (s\<lparr>isReloading := b\<rparr>) t = same_timers s t"
  by (simp_all add: same_timers_def)

lemma same_timers_config [simp]:
  "same_timers s (t\<lparr>config := c\<rparr>) = same_timers s t"
  "same_timers (s\<lparr>config := c\<rparr>) t = same_timers s t"
  by (simp_all add: same_timers_def)

lemma same_timers_tracked: "same_timers s s' \<Longrightarrow> timers_tracked s' = timers_tracked s"
  by (simp add: same_timers_def timers_tracked_def)

lemma same_timers_quiet: "same_timers s s' \<Longrightarrow> quiet s' = quiet s"
  by (simp add: same_timers_def quiet_def)

lemma loadConfig_same_timers: "same_timers s (snd (loadConfig lr s))"
  by (cases lr) simp_all

lemma initializeClient_same_timers:
  "initializeClient io s = Inl (e, s') \<Longrightarrow> same_timers s s'"
  "initializeClient io s = Inr s' \<Longrightarrow> same_timers s s'"
  by (auto simp: initializeClient_def same_timers_def split: option.splits init_outcome.splits)

lemma startStream_same_timers:
  "startStream opens s = Inr s' \<Longrightarrow> same_timers s s'"
  by (simp add: same_timers_def startStream_returns)

lemma restartStream_same_timers: "same_timers s (restartStream opens s)"
proof (cases "startStream opens s")
  case (Inl thrown)
  then show ?thesis
    by (cases thrown) (auto simp: restartStream_def dest: startStream_throws)
next
  case (Inr s1)
  then show ?thesis by (simp add: restartStream_def startStream_same_timers)
qed

lemma reload_rest_throws:
  "reload_rest lr io opens s = Inl (e, s') \<Longrightarrow> same_timers s s'"
  using loadConfig_same_timers [of s lr]
  by (auto simp: reload_rest_def Let_def
      split: prod.splits option.splits if_splits sum.splits)

lemma reload_rest_returns:
  assumes "reload_rest lr io opens s = Inr s'"
  shows "same_timers s s' \<or> same_timers (stopStream True s) s'"
proof (cases lr)
  case LoadThrows
  with assms show ?thesis by (auto simp: reload_rest_def)
next
  case (LoadValue v)
  show ?thesis
  proof (cases v)
    case None
    with LoadValue assms show ?thesis by (auto simp: reload_rest_def)
  next
    case (Some newConfig)
    let ?s3 = "(stopStream True s)\<lparr>config := Some newConfig\<rparr>"
    from assms LoadValue Some obtain oldConfig where old: "config s = Some oldConfig"
      by (auto simp: reload_rest_def split: option.splits)
    show ?thesis
    proof (cases "hasServerConfigChanged oldConfig newConfig")
      case False
      with assms LoadValue Some old have "s' = restartStream opens ?s3"
        by (simp add: reload_rest_def)
      with restartStream_same_timers [of ?s3 opens] show ?thesis
        by simp
    next
      case True
      show ?thesis
      proof (cases "initializeClient io ?s3")
        case (Inl thrown)
        obtain e s4 where thrown: "thrown = (e, s4)" by (cases thrown)
        with Inl have "same_timers (stopStream True s) s4"
          using initializeClient_same_timers(1) [of io ?s3 e s4] by simp
        moreover from assms LoadValue Some old True Inl thrown
        have "s' = (console_error ''Failed to initialize client:'' s4)\<lparr>isReloading := False\<rparr>"
          by (simp add: reload_rest_def)
        ultimately show ?thesis by simp
      next
        case (Inr s4)
        then have "same_timers (stopStream True s) s4"
          using initializeClient_same_timers(2) [of io ?s3 s4] by simp
        moreover from assms LoadValue Some old True Inr
        have "s' = restartStream opens s4" by (simp add: reload_rest_def)
        ultimately show ?thesis
          using restartStream_same_timers [of s4 opens]
          by (auto intro: same_timers_trans)
      qed
    qed
  qed
qed


lemma same_timers_attempts:
  "same_timers s s' \<Longrightarrow> reconnect_attempts (effects s') = reconnect_attempts (effects s)"
  by (simp add: same_timers_def)

lemma stopStream_flag_update [simp]:
  "stopStream b (s\<lparr>isReloading := r\<rparr>) = (stopStream b s)\<lparr>isReloading := r\<rparr>"
  by (simp add: stopStream_def Let_def split: option.splits)

lemma timers_tracked_isReloading [simp]:
  "timers_tracked (s\<lparr>isReloading := r\<rparr>) = timers_tracked s"
  by (simp add: timers_tracked_def)

lemma quiet_isReloading [simp]: "quiet (s\<lparr>isReloading := r\<rparr>) = quiet s"
  by (simp add: quiet_def)

lemma stopStream_True_quiet: "timers_tracked s \<Longrightarrow> quiet (stopStream True s)"
  by (simp add: quiet_def stopStream_clears_tracked)

lemma stopStream_tracked: "timers_tracked s \<Longrightarrow> timers_tracked (stopStream b s)"
  by (simp add: stopStream_clears_tracked timers_tracked_empty)

lemma reloadAndRestart_tracked:
  assumes "timers_tracked s"
  shows "reloadAndRestart lr io opens s = Inr s' \<Longrightarrow> timers_tracked s'"
    and "reloadAndRestart lr io opens s = Inl (e, s') \<Longrightarrow> timers_tracked s'"
proof -
  let ?mid = "s\<lparr>isReloading := True\<rparr>"
  {
    assume r: "reloadAndRestart lr io opens s = Inr s'"
    show "timers_tracked s'"
    proof (cases "isReloading s")
      case True
      with r assms show ?thesis by (simp add: reloadAndRestart_def)
    next
      case False
      with r have "reload_rest lr io opens ?mid = Inr s'" by (simp add: reloadAndRestart_def)
      then have "same_timers ?mid s' \<or> same_timers (stopStream True ?mid) s'"
        by (rule reload_rest_returns)
      with assms stopStream_tracked [OF assms, of True] show ?thesis
        by (auto simp: same_timers_tracked)
    qed
  }
  {
    assume r: "reloadAndRestart lr io opens s = Inl (e, s')"
    then have "reload_rest lr io opens ?mid = Inl (e, s')"
      by (simp add: reloadAndRestart_def split: if_splits)
    then have "same_timers ?mid s'" by (rule reload_rest_throws)
    with assms show "timers_tracked s'" by (simp add: same_timers_tracked)
  }
qed

lemma step_tracked: "timers_tracked s \<Longrightarrow> timers_tracked (state_of (step e s))"
proof (cases e)
  case (StreamData hasTrade)
  assume "timers_tracked s"
  with StreamData show ?thesis by (simp add: onStreamData_def timers_tracked_def)
next
  case StreamError
  assume "timers_tracked s"
  with StreamError show ?thesis
    by (simp add: onStreamError_def attemptReconnect_tracked stopStream_clears_tracked)
next
  case StreamEnd
  assume "timers_tracked s"
  with StreamEnd show ?thesis
    by (simp add: onStreamEnd_def attemptReconnect_tracked stopStream_clears_tracked)
next
  case StreamStatus
  assume "timers_tracked s"
  with StreamStatus show ?thesis by simp
next
  case (TimeoutFires h opens)
  assume "timers_tracked s"
  with TimeoutFires show ?thesis
    by (simp add: reconnectTimerCallback_tracked fired_timer_was_the_only_one)
next
  case (IntervalFires h)
  assume "timers_tracked s"
  with IntervalFires show ?thesis by (simp add: printPerformanceStats_def timers_tracked_def)
next
  case (ConfigChanged lr io opens)
  assume "timers_tracked s"
  with ConfigChanged show ?thesis
    by (auto split: sum.splits dest: reloadAndRestart_tracked)
next
  case Signal
  assume "timers_tracked s"
  with Signal show ?thesis by (simp add: stopStream_tracked)
qed

lemma run_tracked: "timers_tracked (state_of p) \<Longrightarrow> timers_tracked (state_of (run es p))"
proof (induction es arbitrary: p)
  case Nil
  then show ?case by simp
next
  case (Cons e es)
  then show ?case by (cases p) (simp_all add: step_tracked)
qed

lemma startup_timeouts: "timeouts (state_of (startup lr io opens)) = []"
proof -
  have init: "timeouts (snd (loadConfig lr initial_state)) = []"
    using loadConfig_same_timers [of initial_state lr]
    by (simp add: same_timers_def initial_state_def)
  show ?thesis
  proof (cases "loadConfig lr initial_state")
    case (Pair v s1)
    with init have s1: "timeouts s1 = []" by simp
    show ?thesis
    proof (cases v)
      case None
      with Pair s1 show ?thesis by (simp add: startup_def)
    next
      case (Some cfg)
      let ?s1 = "s1\<lparr>config := Some cfg\<rparr>"
      show ?thesis
      proof (cases "initializeClient io ?s1")
        case (Inl thrown)
        obtain e s2 where thrown: "thrown = (e, s2)" by (cases thrown)
        with Inl have "same_timers ?s1 s2" by (auto dest: initializeClient_same_timers)
        with s1 Pair Some Inl thrown show ?thesis
          by (simp add: startup_def same_timers_def)
      next
        case (Inr s2)
        then have "same_timers ?s1 s2" by (auto dest: initializeClient_same_timers)
        with s1 have s2: "timeouts s2 = []" by (simp add: same_timers_def)
        show ?thesis
        proof (cases "startStream opens s2")
          case Inl3: (Inl thrown)
          obtain e s3 where thrown: "thrown = (e, s3)" by (cases thrown)
          with Inl3 have "s3 = s2" by (auto dest: startStream_throws)
          with s2 Pair Some Inr Inl3 thrown show ?thesis by (simp add: startup_def)
        next
          case Inr3: (Inr s3)
          with s2 have "timeouts s3 = []" by (simp add: startStream_returns(1))
          with Pair Some Inr Inr3 show ?thesis by (simp add: startup_def)
        qed
      qed
    qed
  qed
qed

lemma reachable_tracked: "timers_tracked (state_of (run es (startup lr io opens)))"
  by (intro run_tracked timers_tracked_empty startup_timeouts)

section \<open>After an intentional stop nothing reconnects\<close>

lemma console_log_attempts:
  "reconnect_attempts (effects (console_log m s)) =
     reconnect_attempts (effects s) + (if m = ''Attempting to reconnect...'' then 1 else 0)"
  by (simp add: console_log_def reconnect_attempts_def)

lemma quiet_console [simp]:
  "quiet (console_log m s) = quiet s" "quiet (console_error m s) = quiet s"
  by (simp_all add: quiet_def)

lemma stopStream_keeps_quiet: "quiet s \<Longrightarrow> quiet (stopStream True s)"
  by (simp add: quiet_def stopStream_quiet_timeouts)

lemma reloadAndRestart_quiet:
  assumes "quiet s"
  shows "reloadAndRestart lr io opens s = Inr s' \<Longrightarrow>
           quiet s' \<and> reconnect_attempts (effects s') = reconnect_attempts (effects s)"
    and "reloadAndRestart lr io opens s = Inl (e, s') \<Longrightarrow>
           quiet s' \<and> reconnect_attempts (effects s') = reconnect_attempts (effects s)"
proof -
  let ?mid = "s\<lparr>isReloading := True\<rparr>"
  have mid: "reconnect_attempts (effects ?mid) = reconnect_attempts (effects s)" by simp
  {
    assume r: "reloadAndRestart lr io opens s = Inr s'"
    show "quiet s' \<and> reconnect_attempts (effects s') = reconnect_attempts (effects s)"
    proof (cases "isReloading s")
      case True
      with r assms show ?thesis by (simp add: reloadAndRestart_def)
    next
      case False
      with r have "reload_rest lr io opens ?mid = Inr s'" by (simp add: reloadAndRestart_def)
      then have "same_timers ?mid s' \<or> same_timers (stopStream True ?mid) s'"
        by (rule reload_rest_returns)
      then show ?thesis
      proof
        assume "same_timers ?mid s'"
        with assms show ?thesis by (simp add: same_timers_quiet same_timers_attempts)
      next
        assume st: "same_timers (stopStream True ?mid) s'"
        then have "quiet s' = quiet (stopStream True ?mid)" by (rule same_timers_quiet)
        moreover have "reconnect_attempts (effects s') =
            reconnect_attempts (effects (stopStream True ?mid))"
          using st by (rule same_timers_attempts)
        ultimately show ?thesis
          using stopStream_keeps_quiet [OF assms] by simp
      qed
    qed
  }
  {
    assume r: "reloadAndRestart lr io opens s = Inl (e, s')"
    then have "reload_rest lr io opens ?mid = Inl (e, s')"
      by (simp add: reloadAndRestart_def split: if_splits)
    then have "same_timers ?mid s'" by (rule reload_rest_throws)
    with assms show "quiet s' \<and> reconnect_attempts (effects s') = reconnect_attempts (effects s)"
      by (simp add: same_timers_quiet same_timers_attempts)
  }
qed

lemma step_quiet:
  assumes "quiet s"
  shows "quiet (state_of (step e s)) \<and>
         reconnect_attempts (effects (state_of (step e s))) = reconnect_attempts (effects s)"
proof (cases e)
  case (StreamData hasTrade)
  with assms show ?thesis by (simp add: onStreamData_def quiet_def)
next
  case StreamError
  with assms show ?thesis by (simp add: onStreamError_def quiet_def)
next
  case StreamEnd
  with assms show ?thesis by (simp add: onStreamEnd_def quiet_def)
next
  case StreamStatus
  with assms show ?thesis by simp
next
  case (TimeoutFires h opens)
  with assms show ?thesis by (simp add: quiet_def)
next
  case (IntervalFires h)
  with assms show ?thesis by (simp add: printPerformanceStats_def quiet_def)
next
  case (ConfigChanged lr io opens)
  with assms show ?thesis
    by (auto split: sum.splits dest: reloadAndRestart_quiet)
next
  case Signal
  with assms show ?thesis by (simp add: stopStream_keeps_quiet console_log_attempts)
qed

lemma step_quiet_opened:
  assumes "quiet s" and "\<not> is_reconfigure e"
  shows "opened_streams (effects (state_of (step e s))) = opened_streams (effects s)"
proof (cases e)
  case (StreamData hasTrade)
  then show ?thesis by (simp add: onStreamData_def)
next
  case StreamError
  with assms show ?thesis by (simp add: onStreamError_def quiet_def)
next
  case StreamEnd
  with assms show ?thesis by (simp add: onStreamEnd_def quiet_def)
next
  case StreamStatus
  then show ?thesis by simp
next
  case (TimeoutFires h opens)
  with assms show ?thesis by (simp add: quiet_def)
next
  case (IntervalFires h)
  then show ?thesis by (simp add: printPerformanceStats_def)
next
  case (ConfigChanged lr io opens)
  with assms show ?thesis by simp
next
  case Signal
  then show ?thesis by simp
qed

lemma run_quiet:
  "quiet (state_of p) \<Longrightarrow>
     quiet (state_of (run es p)) \<and>
     reconnect_attempts (effects (state_of (run es p))) = reconnect_attempts (effects (state_of p))"
proof (induction es arbitrary: p)
  case Nil
  then show ?case by simp
next
  case (Cons e es)
  show ?case
  proof (cases p)
    case (Running s)
    with Cons.prems have q: "quiet s" by simp
    from step_quiet [OF q, of e] Cons.IH [of "step e s"] Running show ?thesis by simp
  next
    case (Exited code s)
    with Cons.prems show ?thesis by simp
  qed
qed

lemma run_quiet_opened:
  "quiet (state_of p) \<Longrightarrow> \<forall>e \<in> set es. \<not> is_reconfigure e \<Longrightarrow>
     opened_streams (effects (state_of (run es p))) = opened_streams (effects (state_of p))"
proof (induction es arbitrary: p)
  case Nil
  then show ?case by simp
next
  case (Cons e es)
  show ?case
  proof (cases p)
    case (Running s)
    with Cons.prems have q: "quiet s" and e: "\<not> is_reconfigure e" by simp_all
    from step_quiet [OF q, of e] have "quiet (state_of (step e s))" by simp
    with Cons.IH [of "step e s"] Cons.prems(2) step_quiet_opened [OF q e] Running
    show ?thesis by simp
  next
    case (Exited code s)
    then show ?thesis by simp
  qed
qed

section \<open>At most one stream is open\<close>

lemma same_streams_refl [simp]: "same_streams s s"
  by (simp add: same_streams_def)

lemma same_streams_trans: "same_streams s t \<Longrightarrow> same_streams t u \<Longrightarrow> same_streams s u"
  by (simp add: same_streams_def)

lemma same_streams_updates [simp]:
  "same_streams s (console_error m t) = same_streams s t"
  "same_streams s (console_log m t) = same_streams s t"
  "same_streams s (t\<lparr>isReloading := b\<rparr>) = same_streams s t"
  "same_streams (s\<lparr>isReloading := b\<rparr>) t = same_streams s t"
  "same_streams s (t\<lparr>config := c\<rparr>) = same_streams s t"
  "same_streams (s\<lparr>config := c\<rparr>) t = same_streams s t"
  by (simp_all add: same_streams_def console_error_def console_log_def)

lemma same_streams_one: "same_streams s s' \<Longrightarrow> one_stream s' = one_stream s"
  by (auto simp: same_streams_def one_stream_def streams_closed_def split: option.splits)

lemma one_stream_updates [simp]:
  "one_stream (console_error m s) = one_stream s"
  "one_stream (console_log m s) = one_stream s"
  "one_stream (s\<lparr>isReloading := b\<rparr>) = one_stream s"
  "one_stream (s\<lparr>config := c\<rparr>) = one_stream s"
  by (rule same_streams_one, simp)+

lemma streams_closed_updates [simp]:
  "streams_closed (console_error m s) = streams_closed s"
  "streams_closed (console_log m s) = streams_closed s"
  "streams_closed (s\<lparr>isReloading := b\<rparr>) = streams_closed s"
  "streams_closed (s\<lparr>config := c\<rparr>) = streams_closed s"
  by (simp_all add: streams_closed_def console_error_def console_log_def)

lemma same_streams_closed: "same_streams s s' \<Longrightarrow> streams_closed s' = streams_closed s"
  by (simp add: same_streams_def streams_closed_def)

lemma loadConfig_same_streams: "same_streams s (snd (loadConfig lr s))"
  by (cases lr) simp_all

lemma initializeClient_same_streams:
  "initializeClient io s = Inl (e, s') \<Longrightarrow> same_streams s s'"
  "initializeClient io s = Inr s' \<Longrightarrow> same_streams s s'"
  by (auto simp: initializeClient_def same_streams_def split: option.splits init_outcome.splits)

lemma stopStream_closes:
  assumes "one_stream s"
  shows "streams_closed (stopStream b s)"
  using assms
  by (auto simp: one_stream_def streams_closed_def stopStream_def Let_def split: option.splits)

lemma streams_closed_one: "currentStream s = None \<Longrightarrow> one_stream s = streams_closed s"
  by (simp add: one_stream_def)

lemma startStream_one:
  assumes "startStream opens s = Inr s'" and "currentStream s = None" and "timeouts s = []"
    and "streams_closed s"
  shows "one_stream s'"
  using assms
  by (auto simp: startStream_def Let_def startPerformanceReporting_def console_log_def
      one_stream_def streams_closed_def split: option.splits if_splits)

lemma attemptReconnect_one:
  assumes "currentStream s = None" and "streams_closed s"
  shows "one_stream (attemptReconnect s)"
  using assms
  by (simp add: attemptReconnect_def Let_def console_log_def one_stream_def streams_closed_def)

lemma restartStream_one:
  assumes "currentStream s = None" and "timeouts s = []" and "streams_closed s"
  shows "one_stream (restartStream opens s)"
proof (cases "startStream opens s")
  case (Inl thrown)
  obtain e s1 where "thrown = (e, s1)" by (cases thrown)
  with Inl have "restartStream opens s = (console_error ''Failed to start stream:'' s)\<lparr>isReloading := False\<rparr>"
    by (auto simp: restartStream_def dest: startStream_throws)
  with assms show ?thesis by (simp add: streams_closed_one)
next
  case (Inr s1)
  with assms have "one_stream s1" by (intro startStream_one)
  with Inr show ?thesis by (simp add: restartStream_def)
qed


lemma stopStream_current [simp]: "currentStream (stopStream b s) = None"
  by simp

lemma reload_rest_one:
  assumes "one_stream s" and "timers_tracked s"
  shows "reload_rest lr io opens s = Inr s' \<Longrightarrow> one_stream s'"
    and "reload_rest lr io opens s = Inl (e, s') \<Longrightarrow> one_stream s'"
proof -
  have loaded: "same_streams s (snd (loadConfig lr s))" by (rule loadConfig_same_streams)
  {
    assume "reload_rest lr io opens s = Inl (e, s')"
    with loaded have "same_streams s s'"
      by (auto simp: reload_rest_def Let_def
          split: prod.splits option.splits if_splits sum.splits)
    with assms show "one_stream s'" by (simp add: same_streams_one)
  }
  {
    assume r: "reload_rest lr io opens s = Inr s'"
    show "one_stream s'"
    proof (cases lr)
      case LoadThrows
      with r assms show ?thesis by (auto simp: reload_rest_def)
    next
      case (LoadValue v)
      show ?thesis
      proof (cases v)
        case None
        with LoadValue r assms show ?thesis by (auto simp: reload_rest_def)
      next
        case (Some newConfig)
        let ?s3 = "(stopStream True s)\<lparr>config := Some newConfig\<rparr>"
        from r LoadValue Some obtain oldConfig where old: "config s = Some oldConfig"
          by (auto simp: reload_rest_def split: option.splits)
        have s3: "currentStream ?s3 = None" "timeouts ?s3 = []" "streams_closed ?s3"
          using assms by (simp_all add: stopStream_clears_tracked stopStream_closes)
        show ?thesis
        proof (cases "hasServerConfigChanged oldConfig newConfig")
          case False
          with r LoadValue Some old have "s' = restartStream opens ?s3"
            by (simp add: reload_rest_def)
          with s3 show ?thesis by (simp only: restartStream_one)
        next
          case True
          show ?thesis
          proof (cases "initializeClient io ?s3")
            case (Inl thrown)
            obtain e s4 where thrown: "thrown = (e, s4)" by (cases thrown)
            with Inl have "same_streams ?s3 s4"
              using initializeClient_same_streams(1) [of io ?s3 e s4] by simp
            with s3 have "one_stream s4"
              using streams_closed_one [of ?s3] by (simp only: same_streams_one)
            moreover from r LoadValue Some old True Inl thrown
            have "s' = (console_error ''Failed to initialize client:'' s4)\<lparr>isReloading := False\<rparr>"
              by (simp add: reload_rest_def)
            ultimately show ?thesis by simp
          next
            case (Inr s4)
            then have same: "same_streams ?s3 s4"
              using initializeClient_same_streams(2) [of io ?s3 s4] by simp
            with s3 have "currentStream s4 = None" "timeouts s4 = []" "streams_closed s4"
              by (simp_all only: same_streams_closed) (simp_all add: same_streams_def)
            moreover from r LoadValue Some old True Inr
            have "s' = restartStream opens s4" by (simp add: reload_rest_def)
            ultimately show ?thesis by (simp only: restartStream_one)
          qed
        qed
      qed
    qed
  }
qed


lemma one_stream_counters [simp]:
  "one_stream (onStreamData hasTrade s) = one_stream s"
  "one_stream (printPerformanceStats s) = one_stream s"
  by (auto simp: onStreamData_def printPerformanceStats_def one_stream_def
      streams_closed_def split: option.splits)

lemma reconnectTimerCallback_one:
  assumes "currentStream s = None" and "timeouts s = []" and "streams_closed s"
  shows "one_stream (reconnectTimerCallback opens s)"
proof -
  let ?s1 = "console_log ''Attempting to reconnect...'' s"
  have s1: "currentStream ?s1 = None" "timeouts ?s1 = []" "streams_closed ?s1"
    using assms by (simp_all add: console_log_def streams_closed_def)
  show ?thesis
  proof (cases "startStream opens ?s1")
    case (Inl thrown)
    obtain e s2 where thrown: "thrown = (e, s2)" by (cases thrown)
    with Inl have s2: "s2 = ?s1" by (auto dest: startStream_throws)
    have "currentStream (console_error ''Reconnection failed:'' ?s1) = None"
      "streams_closed (console_error ''Reconnection failed:'' ?s1)"
      using assms by (simp_all add: console_error_def console_log_def streams_closed_def)
    then have "one_stream (attemptReconnect (console_error ''Reconnection failed:'' ?s1))"
      by (rule attemptReconnect_one)
    with Inl thrown s2 show ?thesis by (simp add: reconnectTimerCallback_def)
  next
    case (Inr s2)
    with s1 have "one_stream s2" by (intro startStream_one)
    with Inr show ?thesis by (simp add: reconnectTimerCallback_def)
  qed
qed

lemma pending_timer_no_stream:
  "one_stream s \<Longrightarrow> timeouts s \<noteq> [] \<Longrightarrow> currentStream s = None \<and> streams_closed s"
  by (auto simp: one_stream_def split: option.splits)

lemma step_one:
  assumes "one_stream s" and "timers_tracked s"
  shows "one_stream (state_of (step e s))"
proof (cases e)
  case (StreamData hasTrade)
  with assms show ?thesis by simp
next
  case StreamError
  with assms show ?thesis
    by (simp add: onStreamError_def attemptReconnect_one stopStream_closes)
next
  case StreamEnd
  with assms show ?thesis
    by (simp add: onStreamEnd_def attemptReconnect_one stopStream_closes)
next
  case StreamStatus
  with assms show ?thesis by simp
next
  case (TimeoutFires h opens)
  show ?thesis
  proof (cases "h \<in> fst ` set (timeouts s)")
    case False
    with TimeoutFires assms show ?thesis by simp
  next
    case True
    then have "timeouts s \<noteq> []" by auto
    with assms(1) have idle: "currentStream s = None" "streams_closed s"
      by (simp_all add: pending_timer_no_stream)
    let ?fired = "s\<lparr>timeouts := filter (\<lambda>p. fst p \<noteq> h) (timeouts s)\<rparr>"
    have "currentStream ?fired = None" "timeouts ?fired = []" "streams_closed ?fired"
      using idle fired_timer_was_the_only_one [OF assms(2) True]
      by (simp_all add: streams_closed_def)
    then have "one_stream (reconnectTimerCallback opens ?fired)"
      by (rule reconnectTimerCallback_one)
    with TimeoutFires True show ?thesis by simp
  qed
next
  case (IntervalFires h)
  with assms show ?thesis by simp
next
  case (ConfigChanged lr io opens)
  let ?mid = "s\<lparr>isReloading := True\<rparr>"
  have mid: "one_stream ?mid" "timers_tracked ?mid" using assms by simp_all
  show ?thesis
  proof (cases "isReloading s")
    case True
    with ConfigChanged assms show ?thesis by (simp add: reloadAndRestart_def)
  next
    case False
    with ConfigChanged reload_rest_one [OF mid, of lr io opens] show ?thesis
      by (auto simp: reloadAndRestart_def split: sum.splits)
  qed
next
  case Signal
  with assms show ?thesis
    by (simp add: streams_closed_one stopStream_closes)
qed

lemma run_one:
  "one_stream (state_of p) \<Longrightarrow> timers_tracked (state_of p) \<Longrightarrow>
   one_stream (state_of (run es p))"
proof (induction es arbitrary: p)
  case Nil
  then show ?case by simp
next
  case (Cons e es)
  then show ?case by (cases p) (simp_all add: step_one step_tracked)
qed

lemma startup_one: "one_stream (state_of (startup lr io opens))"
proof -
  have init: "same_streams initial_state (snd (loadConfig lr initial_state))"
    by (rule loadConfig_same_streams)
  have closed0: "currentStream initial_state = None" "timeouts initial_state = []"
    "streams_closed initial_state"
    by (simp_all add: initial_state_def streams_closed_def)
  show ?thesis
  proof (cases "loadConfig lr initial_state")
    case (Pair v s1)
    with init closed0 have s1: "currentStream s1 = None" "timeouts s1 = []" "streams_closed s1"
      by (simp_all add: same_streams_def streams_closed_def)
    show ?thesis
    proof (cases v)
      case None
      with Pair s1 show ?thesis by (simp add: startup_def streams_closed_one)
    next
      case (Some cfg)
      let ?s1 = "s1\<lparr>config := Some cfg\<rparr>"
      show ?thesis
      proof (cases "initializeClient io ?s1")
        case (Inl thrown)
        obtain e s2 where thrown: "thrown = (e, s2)" by (cases thrown)
        with Inl have "same_streams s1 s2"
          using initializeClient_same_streams(1) [of io ?s1 e s2] by simp
        with s1 have "one_stream s2"
          using streams_closed_one [of s1] by (simp only: same_streams_one)
        with Pair Some Inl thrown show ?thesis by (simp add: startup_def)
      next
        case (Inr s2)
        then have "same_streams s1 s2"
          using initializeClient_same_streams(2) [of io ?s1 s2] by simp
        with s1 have s2: "currentStream s2 = None" "timeouts s2 = []" "streams_closed s2"
          by (simp_all only: same_streams_closed) (simp_all add: same_streams_def)
        show ?thesis
        proof (cases "startStream opens s2")
          case Inl3: (Inl thrown)
          obtain e s3 where thrown: "thrown = (e, s3)" by (cases thrown)
          with Inl3 have "s3 = s2" by (auto dest: startStream_throws)
          with s2 Pair Some Inr Inl3 thrown show ?thesis
            by (simp add: startup_def streams_closed_one)
        next
          case Inr3: (Inr s3)
          with s2 have "one_stream s3" by (intro startStream_one)
          with Pair Some Inr Inr3 show ?thesis by (simp add: startup_def)
        qed
      qed
    qed
  qed
qed

lemma reachable_one: "one_stream (state_of (run es (startup lr io opens)))"
  by (intro run_one startup_one timers_tracked_empty startup_timeouts)

lemma stop_closes_reachable:
  assumes "run es (startup lr io opens) = Running s"
  shows "set (opened_streams (effects (stopStream True s)))
           \<subseteq> set (cancelled_streams (effects (stopStream True s)))"
  using reachable_one [of es lr io opens] assms stopStream_closes [of s True]
  by (simp add: streams_closed_def)

text \<open>
  C4. Let \<open>s\<close> be any state the running process can reach (by any events after
  startup, so also one with a reconnect pending), and let \<^verbatim>\<open>stopStream(true)\<close> be
  called there. Then no timeout is pending and \<^verbatim>\<open>reconnectTimer\<close> is cleared; there is
  no current stream, the stream that was current has been cancelled, and so has every
  stream the process ever opened; whatever callbacks of streams, timers, intervals and
  signals run afterwards (\<open>cs\<close>, anything but a new reconfigure request), no stream is
  opened; whatever events run afterwards (\<open>es'\<close>, reconfigure requests included), the
  timer callback never attempts a reconnect and no timeout is ever pending again; and
  a second \<^verbatim>\<open>stopStream(true)\<close> changes nothing.
\<close>

theorem C4_stop_is_final:
  assumes reach: "run es (startup lr io opens) = Running s"
    and callbacks: "\<forall>e \<in> set cs. \<not> is_reconfigure e"
  shows "timeouts (stopStream True s) = [] \<and> reconnectTimer (stopStream True s) = None
    \<and> currentStream (stopStream True s) = None
    \<and> (case currentStream s of None \<Rightarrow> True
        | Some sid \<Rightarrow> StreamCancelled sid \<in> set (effects (stopStream True s)))
    \<and> opened_streams (effects (state_of (run cs (Running (stopStream True s)))))
        = opened_streams (effects (stopStream True s))
    \<and> reconnect_attempts (effects (state_of (run es' (Running (stopStream True s)))))
        = reconnect_attempts (effects (stopStream True s))
    \<and> timeouts (state_of (run es' (Running (stopStream True s)))) = []
    \<and> set (opened_streams (effects (stopStream True s)))
        \<subseteq> set (cancelled_streams (effects (stopStream True s)))
    \<and> stopStream True (stopStream True s) = stopStream True s"
proof -
  note closed = stop_closes_reachable [OF reach]
  from reachable_tracked [of es lr io opens] reach have tracked: "timers_tracked s" by simp
  then have q: "quiet (state_of (Running (stopStream True s)))"
    by (simp add: stopStream_True_quiet)
  have cancelled: "case currentStream s of None \<Rightarrow> True
        | Some sid \<Rightarrow> StreamCancelled sid \<in> set (effects (stopStream True s))"
    by (simp add: stopStream_def Let_def split: option.splits)
  from run_quiet [OF q, of es']
  have later: "timeouts (state_of (run es' (Running (stopStream True s)))) = []"
     "reconnect_attempts (effects (state_of (run es' (Running (stopStream True s)))))
        = reconnect_attempts (effects (stopStream True s))"
    by (simp_all add: quiet_def)
  from run_quiet_opened [OF q callbacks]
  have "opened_streams (effects (state_of (run cs (Running (stopStream True s)))))
        = opened_streams (effects (stopStream True s))" by simp
  with tracked cancelled later closed show ?thesis
    by (simp add: stopStream_clears_tracked stopStream_idem)
qed

text \<open>C4 on the concrete run: the stop arrives while the reconnect timer 2 is pending.\<close>

theorem C4_stop_is_final_witness:
  "run [StreamError] (startup (LoadValue (Some example_config)) InitOk True)
     = Running example_pending
   \<and> timeouts example_pending = [(2, 2000)]
   \<and> currentStream example_pending = None
   \<and> timeouts (stopStream True example_pending) = []
   \<and> opened_streams (effects (stopStream True example_pending)) = [0]
   \<and> cancelled_streams (effects (stopStream True example_pending)) = [0]
   \<and> opened_streams (effects (state_of (run [TimeoutFires 2 True, StreamError, StreamEnd]
        (Running (stopStream True example_pending))))) = [0]
   \<and> reconnect_attempts (effects (state_of
        (run [ConfigChanged (LoadValue (Some example_config)) InitOk True, StreamError,
              TimeoutFires 2 True]
        (Running (stopStream True example_pending))))) = 0
   \<and> stopStream True (stopStream True example_pending) = stopStream True example_pending"
  using C4_stop_is_final [of "[StreamError]" "LoadValue (Some example_config)" InitOk True
      example_pending "[TimeoutFires 2 True, StreamError, StreamEnd]"
      "[ConfigChanged (LoadValue (Some example_config)) InitOk True, StreamError,
              TimeoutFires 2 True]"]
  by (simp add: example_pending_def example_defs reload_defs reconnect_attempts_def)

section \<open>Reloading the configuration\<close>

lemma reloadAndRestart_dropped: "isReloading t \<Longrightarrow> reloadAndRestart lr io opens t = Inr t"
  by (simp add: reloadAndRestart_def)

lemma restartStream_result:
  "config (restartStream opens s) = config s" "\<not> isReloading (restartStream opens s)"
  by (auto simp: restartStream_def console_error_def split: sum.splits
      dest: startStream_throws startStream_returns(5))

lemma initializeClient_config:
  "initializeClient io s = Inl (e, s') \<Longrightarrow> config s' = config s"
  "initializeClient io s = Inr s' \<Longrightarrow> config s' = config s"
  by (auto simp: initializeClient_def split: option.splits init_outcome.splits)

lemma reload_rest_loaded:
  assumes "config s = Some oldConfig"
  shows "case reload_rest (LoadValue (Some target)) io opens s of
           Inr s' \<Rightarrow> config s' = Some target \<and> \<not> isReloading s'
         | Inl thrown \<Rightarrow> False"
proof -
  let ?s3 = "(stopStream True s)\<lparr>config := Some target\<rparr>"
  show ?thesis
  proof (cases "hasServerConfigChanged oldConfig target")
    case False
    with assms show ?thesis by (simp add: reload_rest_def restartStream_result)
  next
    case True
    show ?thesis
    proof (cases "initializeClient io ?s3")
      case (Inl thrown)
      obtain e s4 where "thrown = (e, s4)" by (cases thrown)
      with Inl True assms initializeClient_config(1) [of io ?s3 e s4] show ?thesis
        by (simp add: reload_rest_def console_error_def)
    next
      case (Inr s4)
      with True assms initializeClient_config(2) [of io ?s3 s4] show ?thesis
        by (simp add: reload_rest_def restartStream_result)
    qed
  qed
qed

lemma clear_unset_flag: "\<not> isReloading s \<Longrightarrow> s\<lparr>isReloading := False\<rparr> = s"
  by simp

lemma reload_load_throws:
  "reloadAndRestart LoadThrows io opens s =
     Inr (if isReloading s then s
          else s\<lparr>effects := effects s @
                 [ConsoleError ''Failed to load configuration:'',
                  ConsoleError ''Failed to reload configuration, keeping current settings'']\<rparr>)"
  by (simp add: reloadAndRestart_def reload_rest_def console_error_def)

lemma reload_load_empty:
  "reloadAndRestart (LoadValue None) io opens s =
     Inr (if isReloading s then s
          else s\<lparr>effects := effects s @
                 [ConsoleError ''Failed to reload configuration, keeping current settings'']\<rparr>)"
  by (simp add: reloadAndRestart_def reload_rest_def console_error_def)

lemma reload_config_replaced:
  "case reloadAndRestart lr io opens s of
     Inr s' \<Rightarrow> config s' = config s \<or> lr = LoadValue (config s')
   | Inl (e, s') \<Rightarrow> config s' = config s"
proof (cases "isReloading s")
  case True
  then show ?thesis by (simp add: reloadAndRestart_def)
next
  case idle: False
  show ?thesis
  proof (cases lr)
    case LoadThrows
    then show ?thesis by (simp add: reload_load_throws)
  next
    case (LoadValue v)
    show ?thesis
    proof (cases v)
      case None
      with LoadValue show ?thesis by (simp add: reload_load_empty)
    next
      case (Some target)
      show ?thesis
      proof (cases "config s")
        case None
        with idle LoadValue Some show ?thesis
          by (simp add: reloadAndRestart_def reload_rest_def)
      next
        case old: (Some oldConfig)
        then have "config (s\<lparr>isReloading := True\<rparr>) = Some oldConfig" by simp
        from reload_rest_loaded [OF this, of target io opens] idle LoadValue Some
        show ?thesis by (auto simp: reloadAndRestart_def split: sum.splits)
      qed
    qed
  qed
qed

text \<open>
  Between two events the running process is never reloading and always has a
  configuration: \<^verbatim>\<open>reloadAndRestart\<close> clears the flag on every path on which it
  returns, and nothing ever assigns \<^verbatim>\<open>null\<close> to \<^verbatim>\<open>config\<close>.
\<close>

lemma attemptReconnect_idle:
  "isReloading (attemptReconnect s) = isReloading s" "config (attemptReconnect s) = config s"
  by (simp_all add: attemptReconnect_def Let_def console_log_def)

lemma reconnectTimerCallback_idle:
  "isReloading (reconnectTimerCallback opens s) = isReloading s"
  "config (reconnectTimerCallback opens s) = config s"
proof -
  let ?s1 = "console_log ''Attempting to reconnect...'' s"
  show "isReloading (reconnectTimerCallback opens s) = isReloading s"
  proof (cases "startStream opens ?s1")
    case (Inl thrown)
    then show ?thesis
      by (cases thrown)
        (auto simp: reconnectTimerCallback_def attemptReconnect_idle dest: startStream_throws)
  next
    case (Inr s2)
    then show ?thesis by (simp add: reconnectTimerCallback_def startStream_returns(4))
  qed
  show "config (reconnectTimerCallback opens s) = config s"
  proof (cases "startStream opens ?s1")
    case (Inl thrown)
    then show ?thesis
      by (cases thrown)
        (auto simp: reconnectTimerCallback_def attemptReconnect_idle dest: startStream_throws)
  next
    case (Inr s2)
    then show ?thesis by (simp add: reconnectTimerCallback_def startStream_returns(5))
  qed
qed

lemma reloadAndRestart_idle:
  assumes "\<not> isReloading s" and "config s = Some oldConfig"
  shows "case reloadAndRestart lr io opens s of
           Inr s' \<Rightarrow> \<not> isReloading s' \<and> config s' \<noteq> None
         | Inl thrown \<Rightarrow> False"
proof (cases lr)
  case LoadThrows
  with assms show ?thesis by (simp add: reload_load_throws)
next
  case (LoadValue v)
  show ?thesis
  proof (cases v)
    case None
    with LoadValue assms show ?thesis by (simp add: reload_load_empty)
  next
    case (Some target)
    from assms(2) have "config (s\<lparr>isReloading := True\<rparr>) = Some oldConfig" by simp
    from reload_rest_loaded [OF this, of target io opens] assms(1) LoadValue Some
    show ?thesis by (auto simp: reloadAndRestart_def split: sum.splits)
  qed
qed

lemma step_idle: "idle (Running s) \<Longrightarrow> idle (step e s)"
proof (cases e)
  case (ConfigChanged lr io opens)
  assume "idle (Running s)"
  then obtain oldConfig where "\<not> isReloading s" "config s = Some oldConfig"
    by (auto simp: idle_def)
  from reloadAndRestart_idle [OF this, of lr io opens] ConfigChanged show ?thesis
    by (auto simp: idle_def split: sum.splits)
next
  case (TimeoutFires h opens)
  assume "idle (Running s)"
  with TimeoutFires show ?thesis by (simp add: idle_def reconnectTimerCallback_idle)
qed (simp_all add: idle_def onStreamData_def onStreamError_def onStreamEnd_def
      printPerformanceStats_def attemptReconnect_idle)

lemma run_idle: "idle p \<Longrightarrow> idle (run es p)"
proof (induction es arbitrary: p)
  case Nil
  then show ?case by simp
next
  case (Cons e es)
  then show ?case by (cases p) (simp_all add: step_idle)
qed

lemma startup_idle: "idle (startup lr io opens)"
proof (cases lr)
  case LoadThrows
  then show ?thesis by (simp add: startup_def idle_def)
next
  case (LoadValue v)
  show ?thesis
  proof (cases v)
    case None
    with LoadValue show ?thesis by (simp add: startup_def idle_def)
  next
    case (Some cfg)
    let ?s1 = "initial_state\<lparr>config := Some cfg\<rparr>"
    show ?thesis
    proof (cases "initializeClient io ?s1")
      case (Inl thrown)
      with LoadValue Some show ?thesis
        by (cases thrown) (simp add: startup_def idle_def)
    next
      case (Inr s2)
      then have s2: "config s2 = Some cfg" "\<not> isReloading s2"
        by (auto simp: initializeClient_def initial_state_def split: init_outcome.splits)
      show ?thesis
      proof (cases "startStream opens s2")
        case Inl3: (Inl thrown)
        with LoadValue Some Inr show ?thesis
          by (cases thrown) (simp add: startup_def idle_def)
      next
        case Inr3: (Inr s3)
        with s2 have "config s3 = Some cfg" "\<not> isReloading s3"
          by (simp_all add: startStream_returns(4,5))
        with LoadValue Some Inr Inr3 show ?thesis by (simp add: startup_def idle_def)
      qed
    qed
  qed
qed

lemma reachable_idle: "idle (run es (startup lr io opens))"
  by (intro run_idle startup_idle)

text \<open>
  C5. Let \<open>s\<close> be any state the running process can be in when a reload starts; the
  reload sets \<^verbatim>\<open>isReloading\<close>. A second request that arrives before the first has
  finished (right after the flag is set, after the stream has been stopped, or after the
  new configuration has been assigned) returns at once and leaves the state as it is:
  nothing is queued. The first reload, continued from the state the second request left,
  ends exactly as it does alone, and where its load yields the configuration \<open>target\<close>
  it ends with \<^verbatim>\<open>config\<close> = \<open>target\<close> and the flag cleared.
\<close>

theorem C5_overlapping_reload_dropped:
  assumes reach: "run es (startup lr0 io0 opens0) = Running s"
  shows "reloadAndRestart lr2 io2 opens2 (s\<lparr>isReloading := True\<rparr>) = Inr (s\<lparr>isReloading := True\<rparr>)
    \<and> reloadAndRestart lr2 io2 opens2 (stopStream True (s\<lparr>isReloading := True\<rparr>))
        = Inr (stopStream True (s\<lparr>isReloading := True\<rparr>))
    \<and> reloadAndRestart lr2 io2 opens2 ((stopStream True (s\<lparr>isReloading := True\<rparr>))\<lparr>config := Some target\<rparr>)
        = Inr ((stopStream True (s\<lparr>isReloading := True\<rparr>))\<lparr>config := Some target\<rparr>)
    \<and> (case reloadAndRestart lr2 io2 opens2 (s\<lparr>isReloading := True\<rparr>) of
          Inr mid \<Rightarrow> reload_rest (LoadValue (Some target)) io opens mid
        | Inl thrown \<Rightarrow> Inl thrown)
        = reloadAndRestart (LoadValue (Some target)) io opens s
    \<and> (case reloadAndRestart (LoadValue (Some target)) io opens s of
          Inr s' \<Rightarrow> config s' = Some target \<and> \<not> isReloading s'
        | Inl thrown \<Rightarrow> False)"
proof -
  let ?mid = "s\<lparr>isReloading := True\<rparr>"
  from reachable_idle [of es lr0 io0 opens0] reach
  obtain oldConfig where idle: "\<not> isReloading s" and "config s = Some oldConfig"
    by (auto simp: idle_def)
  then have "config ?mid = Some oldConfig" by simp
  from reload_rest_loaded [OF this, of target io opens] idle
  show ?thesis by (simp add: reloadAndRestart_def)
qed

text \<open>C5 on the concrete run: the stream has failed and reconnected when the file
  changes.\<close>

theorem C5_overlapping_reload_dropped_witness:
  "run [StreamError, TimeoutFires 2 True] example_started = Running example_reconnected
   \<and> \<not> isReloading example_reconnected
   \<and> reloadAndRestart LoadThrows InitOk True (example_reconnected\<lparr>isReloading := True\<rparr>)
       = Inr (example_reconnected\<lparr>isReloading := True\<rparr>)
   \<and> config (state_of (step (ConfigChanged (LoadValue (Some example_target)) InitOk True)
        example_reconnected)) = Some example_target"
  using C5_overlapping_reload_dropped [of "[StreamError, TimeoutFires 2 True]"
      "LoadValue (Some example_config)" InitOk True example_reconnected LoadThrows InitOk True
      example_target InitOk True]
  by (simp add: example_reconnected_def example_target_def example_defs reload_defs
      split: sum.splits)

text \<open>
  C6. When loading fails during a reload (reading or parsing throws, or the file yields
  no configuration), \<^verbatim>\<open>reloadAndRestart\<close> returns with the state it found, but for the
  lines written to the error console: configuration, client, current stream, timers and
  counters are the same, nothing is scheduled, and no stream is cancelled or opened. In
  any reload, the configuration afterwards is the one before or the one just loaded.
\<close>

theorem C6_failed_load_keeps_state:
  "reloadAndRestart LoadThrows io opens s =
     Inr (if isReloading s then s
          else s\<lparr>effects := effects s @
                 [ConsoleError ''Failed to load configuration:'',
                  ConsoleError ''Failed to reload configuration, keeping current settings'']\<rparr>)
   \<and> reloadAndRestart (LoadValue None) io opens s =
     Inr (if isReloading s then s
          else s\<lparr>effects := effects s @
                 [ConsoleError ''Failed to reload configuration, keeping current settings'']\<rparr>)
   \<and> (case reloadAndRestart lr io opens s of
         Inr s' \<Rightarrow> config s' = config s \<or> lr = LoadValue (config s')
       | Inl (e, s') \<Rightarrow> config s' = config s)"
  using reload_load_throws reload_load_empty reload_config_replaced by blast

section \<open>The trade filter at startup\<close>

text \<open>
  C7 (amended). If the configured \<^verbatim>\<open>trade_filter\<close> is a truthy value (not missing,
  \<^verbatim>\<open>null\<close>, \<^verbatim>\<open>false\<close>, 0, NaN or the empty string) and is not one of
  \<^verbatim>\<open>alltrades\<close>, \<^verbatim>\<open>buys\<close>, \<^verbatim>\<open>sells\<close>, the process writes the error and exits
  with status 1 having subscribed to no stream. A falsy value is replaced by the default
  \<^verbatim>\<open>alltrades\<close>: startup goes on as if \<^verbatim>\<open>alltrades\<close> had been configured.
\<close>

theorem C7_invalid_trade_filter_is_fatal:
  "(truthy trade_filter \<and> trade_filter \<notin> set TRADE_FILTERS \<longrightarrow>
      first_program trade_filter stream_type client_ok opens
        = FirstExited 1 [ErrorLine ''Invalid trade_filter''])
   \<and> (\<not> truthy trade_filter \<longrightarrow>
      first_program trade_filter stream_type client_ok opens
        = first_program (YString ''alltrades'') stream_type client_ok opens)"
  by (simp add: first_program_def tradeFilter_def)

text \<open>C7 (amended) at the values \<^verbatim>\<open>"both"\<close> and \<^verbatim>\<open>null\<close>.\<close>

theorem C7_invalid_trade_filter_is_fatal_witness:
  "truthy (YString ''both'') \<and> YString ''both'' \<notin> set TRADE_FILTERS
   \<and> first_program (YString ''both'') ''dex_trades'' True True
        = FirstExited 1 [ErrorLine ''Invalid trade_filter'']
   \<and> \<not> truthy YNull
   \<and> first_program YNull ''dex_trades'' True True = FirstListening [Subscribed ''DexTrades'']"
  using C7_invalid_trade_filter_is_fatal [of "YString ''both''" "''dex_trades''" True True]
    C7_invalid_trade_filter_is_fatal [of YNull "''dex_trades''" True True]
  by (simp add: TRADE_FILTERS_def first_program_def tradeFilter_def listenToStream_def
      stream_method_def)

text \<open>
  C7 as stated fails: the configured values \<^verbatim>\<open>""\<close> and \<^verbatim>\<open>false\<close> are none of
  the three filters, yet startup does not exit and the stream is opened.
\<close>

theorem C7_empty_trade_filter_starts:
  "YString '''' \<notin> set TRADE_FILTERS
   \<and> first_program (YString '''') ''dex_trades'' True True
        = FirstListening [Subscribed ''DexTrades'']
   \<and> YBool False \<notin> set TRADE_FILTERS
   \<and> first_program (YBool False) ''dex_trades'' True True
        = FirstListening [Subscribed ''DexTrades'']"
  by (simp add: TRADE_FILTERS_def first_program_def tradeFilter_def listenToStream_def
      stream_method_def)

section \<open>The two toBase58 functions\<close>

lemma bytes_value_example: "bytes_value [24, 4, 55, 60, 240, 230, 66] = 6760034733188674"
  by (simp add: bytes_value_def)

lemma bs58_encode_undefined: "bs58_encode [24, 4, 55, 60, 240, 230, 66] = ''undefined''"
  by (simp add: bs58_encode_def bytes_value_example base58_digits.simps ALPHABET_def)

lemma hex_digits_distinct: "distinct HEX_DIGITS"
  by (simp add: HEX_DIGITS_def)

lemma hex_digit_inj:
  assumes "i < 16" "j < 16" "HEX_DIGITS ! i = HEX_DIGITS ! j"
  shows "i = j"
proof -
  have "length HEX_DIGITS = 16" by (simp add: HEX_DIGITS_def)
  with assms hex_digits_distinct show ?thesis
    by (simp add: nth_eq_iff_index_eq)
qed

lemma hex_byte_inj: "hex_byte a = hex_byte b \<Longrightarrow> a = b"
proof -
  assume eq: "hex_byte a = hex_byte b"
  have bound: "unat a < 256" "unat b < 256"
    using unsigned_less [of a] unsigned_less [of b] by simp_all
  then have "unat a div 16 < 16" "unat b div 16 < 16" by simp_all
  with eq have hi: "unat a div 16 = unat b div 16"
    by (auto simp: hex_byte_def intro: hex_digit_inj)
  have "unat a mod 16 < 16" "unat b mod 16 < 16" by simp_all
  with eq have lo: "unat a mod 16 = unat b mod 16"
    by (auto simp: hex_byte_def intro: hex_digit_inj)
  have "unat a = 16 * (unat a div 16) + unat a mod 16" by simp
  also have "\<dots> = 16 * (unat b div 16) + unat b mod 16" using hi lo by simp
  also have "\<dots> = unat b" by simp
  finally show "a = b" by (simp add: word_unat_eq_iff)
qed

lemma to_hex_inj: "to_hex xs = to_hex ys \<Longrightarrow> xs = ys"
proof (induction xs arbitrary: ys)
  case Nil
  then show ?case by (cases ys) (simp_all add: to_hex_def hex_byte_def)
next
  case (Cons x xs)
  show ?case
  proof (cases ys)
    case Nil
    with Cons.prems show ?thesis by (simp add: to_hex_def hex_byte_def)
  next
    case (Cons y ys')
    with Cons.prems have "hex_byte x @ to_hex xs = hex_byte y @ to_hex ys'"
      by (simp add: to_hex_def)
    then have "hex_byte x = hex_byte y \<and> to_hex xs = to_hex ys'"
      by (simp add: hex_byte_def)
    with Cons.IH Cons show ?thesis by (auto dest: hex_byte_inj)
  qed
qed


lemma cache_sound_empty: "cache_sound encode []"
  by (simp add: cache_sound_def)

lemma cache_sound_delete: "cache_sound encode c \<Longrightarrow> cache_sound encode (AList.delete k c)"
  by (simp add: cache_sound_def delete_conv')

lemma cache_sound_update:
  "cache_sound encode c \<Longrightarrow> encode bs = Some v \<Longrightarrow>
   cache_sound encode (AList.update (to_hex bs) v c)"
  by (auto simp: cache_sound_def update_conv')

lemma cache_sound_hit:
  assumes "cache_sound encode c" and "map_of c (to_hex bs) = Some v"
  shows "encode bs = Some v"
proof -
  from assms obtain bs' where "to_hex bs = to_hex bs'" and v: "encode bs' = Some v"
    by (auto simp: cache_sound_def)
  then have "bs = bs'" by (simp add: to_hex_inj)
  with v show ?thesis by simp
qed

lemma toBase58_cached_sound:
  assumes "cache_sound encode c"
  shows "cache_sound encode (snd (toBase58_cached encode c bytes))"
proof (cases bytes)
  case None
  with assms show ?thesis by (simp add: toBase58_cached_def)
next
  case (Some bs)
  show ?thesis
  proof (cases "map_of c (to_hex bs)")
    case hit: (Some cached)
    with Some assms show ?thesis by (simp add: toBase58_cached_def)
  next
    case miss: None
    show ?thesis
    proof (cases "encode bs")
      case None
      with Some miss assms show ?thesis by (simp add: toBase58_cached_def)
    next
      case (Some result)
      let ?evicted = "if MAX_CACHE_SIZE \<le> length c
                      then (case c of [] \<Rightarrow> c | (firstKey, v) # rest \<Rightarrow> AList.delete firstKey c)
                      else c"
      from assms have "cache_sound encode ?evicted"
        by (auto simp del: delete_simps simp: cache_sound_delete split: list.splits)
      then have "cache_sound encode (AList.update (to_hex bs) result ?evicted)"
        using Some by (rule cache_sound_update)
      with \<open>bytes = Some bs\<close> miss Some assms show ?thesis
        by (simp add: toBase58_cached_def Let_def)
    qed
  qed
qed

lemma toBase58_cached_result:
  assumes "cache_sound encode c"
  shows "fst (toBase58_cached encode c bytes) = toBase58 encode bytes"
proof (cases bytes)
  case None
  then show ?thesis by (simp add: toBase58_cached_def toBase58_def)
next
  case (Some bs)
  show ?thesis
  proof (cases "map_of c (to_hex bs)")
    case hit: (Some cached)
    with assms have "encode bs = Some cached" by (rule cache_sound_hit)
    with Some hit show ?thesis by (simp add: toBase58_cached_def toBase58_def)
  next
    case None
    with Some show ?thesis
      by (simp add: toBase58_cached_def toBase58_def Let_def split: option.splits)
  qed
qed

lemma foldl_cache_sound:
  "cache_sound encode c \<Longrightarrow>
   cache_sound encode (foldl (\<lambda>c bytes. snd (toBase58_cached encode c bytes)) c calls)"
  by (induction calls arbitrary: c) (simp_all add: toBase58_cached_sound)

lemma cache_after_sound: "cache_sound encode (cache_after encode calls)"
  unfolding cache_after_def by (rule foldl_cache_sound) (rule cache_sound_empty)

text \<open>
  C9. For every encoder, every byte-array (or absent) input and every cache that earlier
  calls of the cached function can have left, the cached \<^verbatim>\<open>toBase58\<close> of the first
  program returns the text that the uncached \<^verbatim>\<open>toBase58\<close> of the second program
  returns.
\<close>

theorem C9_cached_equals_uncached:
  "fst (toBase58_cached encode (cache_after encode calls) bytes) = toBase58 encode bytes"
  by (rule toBase58_cached_result) (rule cache_after_sound)

lemma toBase58_cases:
  "(bytes = None \<or> bytes = Some [] \<longrightarrow> toBase58 encode bytes = ''undefined'')
   \<and> (\<forall>bs. bytes = Some bs \<and> bs \<noteq> [] \<and> encode bs = None
         \<longrightarrow> toBase58 encode bytes = ''invalid_address'')
   \<and> (\<forall>bs result. bytes = Some bs \<and> bs \<noteq> [] \<and> encode bs = Some result
         \<longrightarrow> toBase58 encode bytes = result)
   \<and> (toBase58 encode bytes = ''undefined''
         \<longrightarrow> bytes = None \<or> bytes = Some [] \<or>
             (\<exists>bs. bytes = Some bs \<and> encode bs = Some ''undefined''))"
  by (auto simp: toBase58_def split: option.splits if_splits)

text \<open>
  C10 (amended). Both \<^verbatim>\<open>toBase58\<close> functions return a text for every input (a throw
  of the encoder is caught), and the same one: \<^verbatim>\<open>"undefined"\<close> when the input is
  absent or empty, \<^verbatim>\<open>"invalid_address"\<close> when it is non-empty and the encoder throws,
  and the encoder's text otherwise. \<^verbatim>\<open>"undefined"\<close> is returned only for an absent or
  empty input or for bytes whose encoding is itself the text \<^verbatim>\<open>"undefined"\<close>.
\<close>

theorem C10_toBase58_total_cases:
  "(let uncached = toBase58 encode bytes;
        cached = fst (toBase58_cached encode (cache_after encode calls) bytes)
    in cached = uncached
     \<and> (bytes = None \<or> bytes = Some [] \<longrightarrow> uncached = ''undefined'')
     \<and> (\<forall>bs. bytes = Some bs \<and> bs \<noteq> [] \<and> encode bs = None
           \<longrightarrow> uncached = ''invalid_address'')
     \<and> (\<forall>bs result. bytes = Some bs \<and> bs \<noteq> [] \<and> encode bs = Some result
           \<longrightarrow> uncached = result)
     \<and> (uncached = ''undefined''
           \<longrightarrow> bytes = None \<or> bytes = Some [] \<or>
               (\<exists>bs. bytes = Some bs \<and> encode bs = Some ''undefined'')))"
  unfolding Let_def
  using toBase58_cached_result [OF cache_after_sound, of encode calls bytes]
    toBase58_cases [of bytes encode]
  by simp

lemma bs58_encode_example: "bs58_encode [1, 2, 3] = ''Ldp''"
  by (simp add: bs58_encode_def bytes_value_def base58_digits.simps ALPHABET_def)

text \<open>C10 (amended) at the bytes 01 02 03, already in the cache; at an encoder that
  throws; at the empty input.\<close>

theorem C10_toBase58_total_cases_witness:
  "toBase58 (\<lambda>bs. Some (bs58_encode bs)) (Some [1, 2, 3]) = ''Ldp''
   \<and> cache_after (\<lambda>bs. Some (bs58_encode bs)) [Some [1, 2, 3]] = [(''010203'', ''Ldp'')]
   \<and> fst (toBase58_cached (\<lambda>bs. Some (bs58_encode bs))
          (cache_after (\<lambda>bs. Some (bs58_encode bs)) [Some [1, 2, 3]]) (Some [1, 2, 3])) = ''Ldp''
   \<and> toBase58 (\<lambda>bs. None) (Some [1, 2, 3]) = ''invalid_address''
   \<and> toBase58 (\<lambda>bs. Some (bs58_encode bs)) (Some []) = ''undefined''"
  using C10_toBase58_total_cases [of "\<lambda>bs. Some (bs58_encode bs)" "Some [1, 2, 3]"
      "[Some [1, 2, 3]]"]
    C10_toBase58_total_cases [of "\<lambda>bs. None" "Some [1, 2, 3]" "[]"]
    C10_toBase58_total_cases [of "\<lambda>bs. Some (bs58_encode bs)" "Some []" "[]"]
  by (simp add: bs58_encode_example cache_after_def toBase58_cached_def toBase58_def
      to_hex_def hex_byte_def HEX_DIGITS_def MAX_CACHE_SIZE_def Let_def)

text \<open>
  C10 as stated fails in its "exactly when": the seven bytes 18 04 37 3c f0 e6 42 are a
  non-empty input whose Base58 encoding is the text \<^verbatim>\<open>"undefined"\<close>, so
  \<^verbatim>\<open>toBase58\<close> returns \<^verbatim>\<open>"undefined"\<close> for an input that is neither absent nor
  empty.
\<close>

theorem C10_undefined_for_nonempty_input:
  "toBase58 (\<lambda>bs. Some (bs58_encode bs)) (Some [24, 4, 55, 60, 240, 230, 66]) = ''undefined''
   \<and> Some [24, 4, 55, 60, 240, 230, 66 :: byte] \<noteq> None
   \<and> Some [24, 4, 55, 60, 240, 230, 66 :: byte] \<noteq> Some []"
  by (simp add: toBase58_def bs58_encode_undefined)

end
